theory Spec2Isabelle
  imports Complex_Main
begin

section \<open>Python values, text and the Unicode classes the parser consults\<close>

text \<open>
  \<^verbatim>\<open>parse_coordinates\<close> of \<^verbatim>\<open>sulfuric_acid_map.py\<close> receives one cell of a data
  frame. A Python \<^verbatim>\<open>str\<close> is a sequence of Unicode code points, so text is a list of
  code points (natural numbers); Isabelle's \<open>char\<close> is a byte and cannot hold
  U+2032 or U+2033.

  The function is modelled twice. \<open>parse_coordinates\<close> is the function with exact
  arithmetic and with a \<^verbatim>\<open>print\<close> that always succeeds: a \<^verbatim>\<open>float\<close> is the rational
  it stands for. \<open>parse_coordinates_py\<close> is the function as the interpreter runs it:
  a \<^verbatim>\<open>float\<close> is a binary64 number, every operation rounds, and the truth test of the
  argument and \<^verbatim>\<open>print\<close> can raise. The two share the patterns, the matcher and the
  control flow.
\<close>

type_synonym ustr = "nat list"

datatype pyval =
    PyNone
  | PyStr ustr
  | PyInt int
  | PyBool bool
  | PyFloat rat
  | PyNaN

text \<open>\<^verbatim>\<open>not coord_str\<close> negates the truth value of the argument.\<close>

fun truthy :: "pyval \<Rightarrow> bool" where
  "truthy PyNone = False"
| "truthy (PyStr s) = (s \<noteq> [])"
| "truthy (PyInt i) = (i \<noteq> 0)"
| "truthy (PyBool b) = b"
| "truthy (PyFloat q) = (q \<noteq> 0)"
| "truthy PyNaN = True"

fun isinstance_str :: "pyval \<Rightarrow> bool" where
  "isinstance_str (PyStr s) = True"
| "isinstance_str v = False"

text \<open>
  The code points for which \<^verbatim>\<open>str.isspace\<close> holds. Both \<^verbatim>\<open>str.strip()\<close> and the
  pattern class \<^verbatim>\<open>\s\<close> use this set.
\<close>

definition is_space :: "nat \<Rightarrow> bool" where
  "is_space c \<longleftrightarrow>
     (9 \<le> c \<and> c \<le> 13) \<or> (28 \<le> c \<and> c \<le> 32) \<or> c = 133 \<or> c = 160 \<or> c = 5760 \<or>
     (8192 \<le> c \<and> c \<le> 8202) \<or> c = 8232 \<or> c = 8233 \<or> c = 8239 \<or> c = 8287 \<or> c = 12288"

text \<open>
  The pattern class \<^verbatim>\<open>\d\<close> of a \<^verbatim>\<open>str\<close> pattern is the Unicode category Nd, and
  \<^verbatim>\<open>float\<close> reads every such digit by its decimal value. The decimal digits come in
  runs of ten, zero first; the list holds the code point of each zero (Unicode 14, the
  version of CPython 3.11). Later versions of Unicode add runs and remove none: a digit
  of this list is a digit for every later version.
\<close>

definition decimal_zeros :: "nat list" where
  "decimal_zeros =
     [48, 1632, 1776, 1984, 2406, 2534, 2662, 2790, 2918, 3046, 3174, 3302, 3430, 3558,
      3664, 3792, 3872, 4160, 4240, 6112, 6160, 6470, 6608, 6784, 6800, 6992, 7088, 7232,
      7248, 42528, 43216, 43264, 43472, 43504, 43600, 44016, 65296, 66720, 68912, 69734,
      69872, 69942, 70096, 70384, 70736, 70864, 71248, 71360, 71472, 71904, 72016, 72784,
      73040, 73120, 92768, 92864, 93008, 120782, 120792, 120802, 120812, 120822, 123200,
      123632, 125264, 130032]"

definition decimal_value :: "nat \<Rightarrow> nat option" where
  "decimal_value c =
     (case find (\<lambda>z. z \<le> c \<and> c < z + 10) decimal_zeros of
        None \<Rightarrow> None
      | Some z \<Rightarrow> Some (c - z))"

definition is_decimal :: "nat \<Rightarrow> bool" where
  "is_decimal c \<longleftrightarrow> decimal_value c \<noteq> None"

text \<open>
  Every pattern is searched with \<^verbatim>\<open>re.IGNORECASE\<close>: a literal of the pattern also
  matches its case variants. Of the literals the patterns use only N, S, E and W are
  cased; S (U+0053) has the two variants s (U+0073) and the long s (U+017F).
\<close>

definition ic_variants :: "nat \<Rightarrow> nat list" where
  "ic_variants l =
     (if l = 78 then [78, 110]
      else if l = 83 then [83, 115, 383]
      else if l = 69 then [69, 101]
      else if l = 87 then [87, 119]
      else [l])"

text \<open>
  \<^verbatim>\<open>str.upper()\<close> on the text of a hemisphere group: the Latin small letters and the
  long s have a one-letter upper case, the capitals are their own.
\<close>

definition upper_cp :: "nat \<Rightarrow> nat" where
  "upper_cp c = (if 97 \<le> c \<and> c \<le> 122 then c - 32 else if c = 383 then 83 else c)"

definition str_upper :: "ustr \<Rightarrow> ustr" where
  "str_upper s = map upper_cp s"

text \<open>\<^verbatim>\<open>str.strip()\<close> removes the white space at both ends.\<close>

definition strip :: "ustr \<Rightarrow> ustr" where
  "strip s = rev (dropWhile is_space (rev (dropWhile is_space s)))"

text \<open>The operator \<^verbatim>\<open>in\<close> on two strings: the first occurs in the second.\<close>

fun starts_with :: "ustr \<Rightarrow> ustr \<Rightarrow> bool" where
  "starts_with [] s = True"
| "starts_with (p # ps) [] = False"
| "starts_with (p # ps) (c # cs) = (p = c \<and> starts_with ps cs)"

fun str_contains :: "ustr \<Rightarrow> ustr \<Rightarrow> bool" where
  "str_contains p [] = starts_with p []"
| "str_contains p (c # cs) = (starts_with p (c # cs) \<or> str_contains p cs)"

section \<open>The regular expressions and \<^verbatim>\<open>re.search\<close>\<close>

text \<open>
  The three patterns of the source use character classes, the greedy repetitions
  \<^verbatim>\<open>*\<close> and \<^verbatim>\<open>+\<close> of a class, the greedy option \<^verbatim>\<open>?\<close>, concatenation and
  numbered capturing groups; the non-capturing group \<^verbatim>\<open>(?:...)\<close> is plain nesting.
\<close>

datatype cclass =
    Digit
  | Space
  | OneOf "nat list"

datatype regex =
    Eps
  | Chr cclass
  | Star cclass
  | Plus cclass
  | Opt regex
  | Seq regex regex
  | Grp nat regex

fun in_class :: "cclass \<Rightarrow> nat \<Rightarrow> bool" where
  "in_class Digit c = is_decimal c"
| "in_class Space c = is_space c"
| "in_class (OneOf ls) c = (c \<in> set (concat (map ic_variants ls)))"

text \<open>
  A greedy repetition of a class takes the longest run first and gives characters back
  one at a time: \<open>many P s\<close> lists what is left of \<open>s\<close> after each choice, in the
  order in which the backtracking matcher tries them.
\<close>

fun many :: "(nat \<Rightarrow> bool) \<Rightarrow> ustr \<Rightarrow> ustr list" where
  "many P [] = [[]]"
| "many P (c # s) = (if P c then many P s @ [c # s] else [c # s])"

type_synonym captures = "(nat \<times> ustr) list"

text \<open>
  \<open>rmatch r s\<close> lists every way in which \<open>r\<close> matches at the start of \<open>s\<close>, as the
  groups captured and the text left over, in the matcher's order of preference.
\<close>

fun rmatch :: "regex \<Rightarrow> ustr \<Rightarrow> (captures \<times> ustr) list" where
  "rmatch Eps s = [([], s)]"
| "rmatch (Chr k) [] = []"
| "rmatch (Chr k) (c # s) = (if in_class k c then [([], s)] else [])"
| "rmatch (Star k) s = map (Pair []) (many (in_class k) s)"
| "rmatch (Plus k) [] = []"
| "rmatch (Plus k) (c # s) = (if in_class k c then map (Pair []) (many (in_class k) s) else [])"
| "rmatch (Opt r) s = rmatch r s @ [([], s)]"
| "rmatch (Seq a b) s =
     concat (map (\<lambda>(g1, s1). map (\<lambda>(g2, s2). (g1 @ g2, s2)) (rmatch b s1)) (rmatch a s))"
| "rmatch (Grp n r) s =
     map (\<lambda>(g, s'). ((n, take (length s - length s') s) # g, s')) (rmatch r s)"

text \<open>
  \<^verbatim>\<open>re.search\<close> scans the start positions from the left and returns the first match
  of the first position that has one; \<open>None\<close> is Python's \<^verbatim>\<open>None\<close>.
\<close>

fun re_search :: "regex \<Rightarrow> ustr \<Rightarrow> captures option" where
  "re_search r [] = (case rmatch r [] of [] \<Rightarrow> None | (g, _) # _ \<Rightarrow> Some g)"
| "re_search r (c # s) =
     (case rmatch r (c # s) of [] \<Rightarrow> re_search r s | (g, _) # _ \<Rightarrow> Some g)"

fun seq :: "regex list \<Rightarrow> regex" where
  "seq [] = Eps"
| "seq (r # rs) = Seq r (seq rs)"

text \<open>
  In the comments the code points beyond ASCII are written \<^verbatim>\<open>\uXXXX\<close>.
  The literals: \<open>176\<close> and \<open>186\<close> are the degree sign and the masculine ordinal
  indicator, \<open>39\<close> and \<open>8242\<close> the apostrophe and the prime, \<open>34\<close> and \<open>8243\<close> the
  quotation mark and the double prime, \<open>44\<close> the comma, \<open>46\<close> the full stop, and
  \<open>78\<close>, \<open>83\<close>, \<open>69\<close>, \<open>87\<close> the letters N, S, E, W.
\<close>

definition deg_mark :: regex where "deg_mark = Chr (OneOf [176, 186])"
definition min_mark :: regex where "min_mark = Chr (OneOf [39, 8242])"
definition sec_mark :: regex where "sec_mark = Opt (Chr (OneOf [34, 8243]))"
definition spaces0 :: regex where "spaces0 = Star Space"
definition spaces1 :: regex where "spaces1 = Plus Space"
definition number :: regex where
  "number = Seq (Plus Digit) (Opt (Seq (Chr (OneOf [46])) (Plus Digit)))"

text \<open>
  \<^verbatim>\<open>(\d+)[\u00b0\u00ba]\s*(\d+)['\u2032]\s*(\d+(?:\.\d+)?)["\u2033]?\s*([NSEW])\<close>, the half that the two
  patterns of the list share, with its groups numbered from \<open>k + 1\<close>.
\<close>

definition dms_group :: "nat \<Rightarrow> regex list" where
  "dms_group k =
     [Grp (k + 1) (Plus Digit), deg_mark, spaces0,
      Grp (k + 2) (Plus Digit), min_mark, spaces0,
      Grp (k + 3) number, sec_mark, spaces0,
      Grp (k + 4) (Chr (OneOf [78, 83, 69, 87]))]"

definition pattern_comma :: regex where
  "pattern_comma = seq (dms_group 0 @ [Chr (OneOf [44]), spaces0] @ dms_group 4)"

definition pattern_space :: regex where
  "pattern_space = seq (dms_group 0 @ [spaces1] @ dms_group 4)"

definition patterns :: "regex list" where
  "patterns = [pattern_comma, pattern_space]"

text \<open>
  \<^verbatim>\<open>(\d+)[\u00b0\u00ba](\d+)['\u2032](\d+)["\u2033]?([NS])\s+(\d+)[\u00b0\u00ba](\d+)['\u2032](\d+)["\u2033]?([EW])\<close>
\<close>

definition simplified_pattern :: regex where
  "simplified_pattern =
     seq [Grp 1 (Plus Digit), deg_mark, Grp 2 (Plus Digit), min_mark,
          Grp 3 (Plus Digit), sec_mark, Grp 4 (Chr (OneOf [78, 83])),
          spaces1,
          Grp 5 (Plus Digit), deg_mark, Grp 6 (Plus Digit), min_mark,
          Grp 7 (Plus Digit), sec_mark, Grp 8 (Chr (OneOf [69, 87]))]"

section \<open>Conversion to decimal degrees\<close>

text \<open>
  The exceptions: \<^verbatim>\<open>IndexError\<close> of \<^verbatim>\<open>match.group\<close>, \<^verbatim>\<open>ValueError\<close> of \<^verbatim>\<open>float\<close>,
  \<^verbatim>\<open>TypeError\<close> of a truth test and \<^verbatim>\<open>UnicodeEncodeError\<close> of \<^verbatim>\<open>print\<close>.
\<close>

datatype py_error = IndexError | ValueError | TypeError | UnicodeEncodeError

text \<open>\<^verbatim>\<open>match.group(k)\<close>\<close>

definition group :: "captures \<Rightarrow> nat \<Rightarrow> py_error + ustr" where
  "group m k = (case map_of m k of None \<Rightarrow> Inl IndexError | Some t \<Rightarrow> Inr t)"

text \<open>
  \<^verbatim>\<open>float(text)\<close> on the text of a group. The groups hold decimal digits with at most
  one full stop between them; \<open>py_float\<close> reads such text and raises \<^verbatim>\<open>ValueError\<close>
  on any other.
\<close>

fun digits_value :: "ustr \<Rightarrow> nat option" where
  "digits_value [] = None"
| "digits_value (c # s) =
     (if list_all is_decimal (c # s)
      then Some (foldl (\<lambda>a d. 10 * a + the (decimal_value d)) 0 (c # s))
      else None)"

definition py_float :: "ustr \<Rightarrow> py_error + rat" where
  "py_float t =
     (let whole = takeWhile (\<lambda>c. c \<noteq> 46) t; rest = dropWhile (\<lambda>c. c \<noteq> 46) t
      in case digits_value whole of
           None \<Rightarrow> Inl ValueError
         | Some w \<Rightarrow>
             (case rest of
                [] \<Rightarrow> Inr (of_nat w)
              | dot # fraction \<Rightarrow>
                  (case digits_value fraction of
                     None \<Rightarrow> Inl ValueError
                   | Some f \<Rightarrow> Inr (of_nat w + of_nat f / 10 ^ length fraction))))"

definition float_group :: "captures \<Rightarrow> nat \<Rightarrow> py_error + rat" where
  "float_group m k = (case group m k of Inl e \<Rightarrow> Inl e | Inr t \<Rightarrow> py_float t)"

definition upper_group :: "captures \<Rightarrow> nat \<Rightarrow> py_error + ustr" where
  "upper_group m k = (case group m k of Inl e \<Rightarrow> Inl e | Inr t \<Rightarrow> Inr (str_upper t))"

text \<open>
  The body that follows a successful match. The source has it twice, after the loop
  over \<open>patterns\<close> and after \<open>simplified_pattern\<close>, with the same text.
\<close>

definition to_decimal :: "captures \<Rightarrow> py_error + rat \<times> rat" where
  "to_decimal m =
     (case float_group m 1 of Inl e \<Rightarrow> Inl e | Inr lat_deg \<Rightarrow>
      case float_group m 2 of Inl e \<Rightarrow> Inl e | Inr g2 \<Rightarrow>
      case float_group m 3 of Inl e \<Rightarrow> Inl e | Inr g3 \<Rightarrow>
      case upper_group m 4 of Inl e \<Rightarrow> Inl e | Inr lat_dir \<Rightarrow>
      case float_group m 5 of Inl e \<Rightarrow> Inl e | Inr lon_deg \<Rightarrow>
      case float_group m 6 of Inl e \<Rightarrow> Inl e | Inr g6 \<Rightarrow>
      case float_group m 7 of Inl e \<Rightarrow> Inl e | Inr g7 \<Rightarrow>
      case upper_group m 8 of Inl e \<Rightarrow> Inl e | Inr lon_dir \<Rightarrow>
        (let lat_min = g2 / 60; lat_sec = g3 / 3600;
             lon_min = g6 / 60; lon_sec = g7 / 3600;
             latitude = lat_deg + lat_min + lat_sec;
             latitude = (if lat_dir = [83] then - latitude else latitude);
             longitude = lon_deg + lon_min + lon_sec;
             longitude = (if lon_dir = [87] then - longitude else longitude)
         in Inr (latitude, longitude)))"

section \<open>\<^verbatim>\<open>parse_coordinates\<close>\<close>

text \<open>
  The text \<^verbatim>\<open>33\u00b0 46' 36" N, 118\u00b0 17' 0" W\<close> of the special case, and the pair the
  special case returns, \<^verbatim>\<open>33.77, -118.283333\<close>.
\<close>

definition special_text :: ustr where
  "special_text =
     [51, 51, 176, 32, 52, 54, 39, 32, 51, 54, 34, 32, 78, 44, 32,
      49, 49, 56, 176, 32, 49, 55, 39, 32, 48, 34, 32, 87]"

definition special_result :: "rat \<times> rat" where
  "special_result = (3377 / 100, - (118283333 / 1000000))"

text \<open>
  The loop \<^verbatim>\<open>for pattern in patterns\<close>: the first pattern that is found decides;
  \<open>None\<close> means that the loop ended without a match.
\<close>

fun try_patterns :: "regex list \<Rightarrow> ustr \<Rightarrow> (py_error + rat \<times> rat) option" where
  "try_patterns [] s = None"
| "try_patterns (p # ps) s =
     (case re_search p s of
        Some m \<Rightarrow> Some (to_decimal m)
      | None \<Rightarrow> try_patterns ps s)"

text \<open>
  The body of the \<^verbatim>\<open>try\<close> block on the stripped text: \<open>Inl\<close> is an exception on
  its way to the handler, \<open>Inr (Some p)\<close> a returned pair, \<open>Inr None\<close> the fall
  through to the message \<^verbatim>\<open>Could not parse coordinates\<close>.
\<close>

definition try_block :: "ustr \<Rightarrow> py_error + (rat \<times> rat) option" where
  "try_block cleaned_str =
     (case try_patterns patterns cleaned_str of
        Some (Inl e) \<Rightarrow> Inl e
      | Some (Inr p) \<Rightarrow> Inr (Some p)
      | None \<Rightarrow>
          if str_contains special_text cleaned_str then Inr (Some special_result)
          else
            (case re_search simplified_pattern cleaned_str of
               Some m \<Rightarrow> (case to_decimal m of Inl e \<Rightarrow> Inl e | Inr p \<Rightarrow> Inr (Some p))
             | None \<Rightarrow> Inr None))"

text \<open>
  What \<^verbatim>\<open>print\<close> writes: the two messages, with the argument as it was passed in and,
  for the second, the exception.
\<close>

datatype message =
    CouldNotParse ustr
  | ErrorProcessing ustr py_error

type_synonym coordinate_pair = "rat option \<times> rat option"

text \<open>
  The function takes the argument and the standard output so far, and returns the pair
  and the standard output afterwards. A value that is not a \<^verbatim>\<open>str\<close>, and the empty
  \<^verbatim>\<open>str\<close>, leave by the first \<^verbatim>\<open>return None, None\<close>.
\<close>

definition parse_coordinates :: "pyval \<Rightarrow> message list \<Rightarrow> coordinate_pair \<times> message list" where
  "parse_coordinates coord_str out =
     (if \<not> truthy coord_str \<or> \<not> isinstance_str coord_str then ((None, None), out)
      else
        (case coord_str of
           PyStr raw \<Rightarrow>
             (case try_block (strip raw) of
                Inr (Some (latitude, longitude)) \<Rightarrow> ((Some latitude, Some longitude), out)
              | Inr None \<Rightarrow> ((None, None), out @ [CouldNotParse raw])
              | Inl e \<Rightarrow> ((None, None), out @ [ErrorProcessing raw e]))
         | _ \<Rightarrow> ((None, None), out)))"

section \<open>Binary64 arithmetic\<close>

text \<open>
  A Python \<^verbatim>\<open>float\<close> is an IEEE 754 binary64 number: a finite number with a
  significand of 53 bits and an exponent between \<open>-1022\<close> and \<open>1023\<close>, an infinity or
  a NaN. A finite number is given by the rational it stands for; the two zeros, which
  compare equal, are both \<open>Finite 0\<close>.
\<close>

datatype b64 = Finite rat | PInf | NInf | NaN

text \<open>Rounding to the nearest integer, a tie going to the even one.\<close>

definition round_half_even :: "rat \<Rightarrow> int" where
  "round_half_even y =
     (let f = \<lfloor>y\<rfloor>; r = y - of_int f
      in if r < 1 / 2 then f else if 1 / 2 < r then f + 1 else if even f then f else f + 1)"

text \<open>
  The binary exponent of a positive number \<open>x\<close>, the \<open>e\<close> with
  \<open>2 ^ e \<le> x < 2 ^ (e + 1)\<close>, found by halving a number that is at least 1 and by
  doubling a smaller one; below \<open>2 ^ - 1022\<close>, where the numbers are subnormal, the
  exponent stays \<open>-1022\<close>.
\<close>

function halve_exp :: "rat \<Rightarrow> int \<Rightarrow> int" where
  "halve_exp x e = (if 2 \<le> x then halve_exp (x / 2) (e + 1) else e)"
  by pat_completeness auto
termination
  by (relation "measure (\<lambda>(x, e). nat \<lfloor>x\<rfloor>)") (auto, linarith)

function double_exp :: "rat \<Rightarrow> int \<Rightarrow> int" where
  "double_exp x e = (if x < 1 \<and> - 1022 < e then double_exp (2 * x) (e - 1) else e)"
  by pat_completeness auto
termination
  by (relation "measure (\<lambda>(x, e). nat (e + 1022))") auto

definition exponent :: "rat \<Rightarrow> int" where
  "exponent x = (if 1 \<le> x then halve_exp x 0 else double_exp x 0)"

text \<open>
  The binary64 number nearest to a rational that is not negative: the rational is
  rounded to a multiple of \<open>2 ^ (e - 52)\<close>, and a result of \<open>2 ^ 1024\<close> or more is the
  infinity. \<open>round64\<close> is the same rounding for any rational.
\<close>

definition round64_pos :: "rat \<Rightarrow> b64" where
  "round64_pos x =
     (if x = 0 then Finite 0
      else let q = 2 powi (exponent x - 52);
               y = of_int (round_half_even (x / q)) * q
           in if 2 ^ 1024 \<le> y then PInf else Finite y)"

fun b64_neg :: "b64 \<Rightarrow> b64" where
  "b64_neg (Finite x) = Finite (- x)"
| "b64_neg PInf = NInf"
| "b64_neg NInf = PInf"
| "b64_neg NaN = NaN"

definition round64 :: "rat \<Rightarrow> b64" where
  "round64 x = (if x < 0 then b64_neg (round64_pos (- x)) else round64_pos x)"

text \<open>
  The sum of two floats, and the quotient of a float by one of the literals \<^verbatim>\<open>60\<close>
  and \<^verbatim>\<open>3600\<close>: the exact result, rounded.
\<close>

fun b64_add :: "b64 \<Rightarrow> b64 \<Rightarrow> b64" where
  "b64_add (Finite x) (Finite y) = round64 (x + y)"
| "b64_add NaN b = NaN"
| "b64_add a NaN = NaN"
| "b64_add PInf NInf = NaN"
| "b64_add NInf PInf = NaN"
| "b64_add PInf b = PInf"
| "b64_add a PInf = PInf"
| "b64_add NInf b = NInf"
| "b64_add a NInf = NInf"

fun b64_div :: "b64 \<Rightarrow> rat \<Rightarrow> b64" where
  "b64_div (Finite x) d = round64 (x / d)"
| "b64_div a d = a"


section \<open>\<^verbatim>\<open>parse_coordinates\<close> as the interpreter runs it\<close>

text \<open>
  \<^verbatim>\<open>float(text)\<close> is the binary64 number nearest to the number that the text denotes.
\<close>

definition py_float_b64 :: "ustr \<Rightarrow> py_error + b64" where
  "py_float_b64 t = (case py_float t of Inl e \<Rightarrow> Inl e | Inr q \<Rightarrow> Inr (round64 q))"

definition float_group_b64 :: "captures \<Rightarrow> nat \<Rightarrow> py_error + b64" where
  "float_group_b64 m k = (case group m k of Inl e \<Rightarrow> Inl e | Inr t \<Rightarrow> py_float_b64 t)"

definition to_decimal_b64 :: "captures \<Rightarrow> py_error + b64 \<times> b64" where
  "to_decimal_b64 m =
     (case float_group_b64 m 1 of Inl e \<Rightarrow> Inl e | Inr lat_deg \<Rightarrow>
      case float_group_b64 m 2 of Inl e \<Rightarrow> Inl e | Inr g2 \<Rightarrow>
      case float_group_b64 m 3 of Inl e \<Rightarrow> Inl e | Inr g3 \<Rightarrow>
      case upper_group m 4 of Inl e \<Rightarrow> Inl e | Inr lat_dir \<Rightarrow>
      case float_group_b64 m 5 of Inl e \<Rightarrow> Inl e | Inr lon_deg \<Rightarrow>
      case float_group_b64 m 6 of Inl e \<Rightarrow> Inl e | Inr g6 \<Rightarrow>
      case float_group_b64 m 7 of Inl e \<Rightarrow> Inl e | Inr g7 \<Rightarrow>
      case upper_group m 8 of Inl e \<Rightarrow> Inl e | Inr lon_dir \<Rightarrow>
        (let lat_min = b64_div g2 60; lat_sec = b64_div g3 3600;
             lon_min = b64_div g6 60; lon_sec = b64_div g7 3600;
             latitude = b64_add (b64_add lat_deg lat_min) lat_sec;
             latitude = (if lat_dir = [83] then b64_neg latitude else latitude);
             longitude = b64_add (b64_add lon_deg lon_min) lon_sec;
             longitude = (if lon_dir = [87] then b64_neg longitude else longitude)
         in Inr (latitude, longitude)))"

definition special_result_b64 :: "b64 \<times> b64" where
  "special_result_b64 = (round64 (3377 / 100), b64_neg (round64 (118283333 / 1000000)))"

fun try_patterns_b64 :: "regex list \<Rightarrow> ustr \<Rightarrow> (py_error + b64 \<times> b64) option" where
  "try_patterns_b64 [] s = None"
| "try_patterns_b64 (p # ps) s =
     (case re_search p s of
        Some m \<Rightarrow> Some (to_decimal_b64 m)
      | None \<Rightarrow> try_patterns_b64 ps s)"

text \<open>The statements of the \<^verbatim>\<open>try\<close> block before the \<^verbatim>\<open>print\<close>.\<close>

definition try_block_b64 :: "ustr \<Rightarrow> py_error + (b64 \<times> b64) option" where
  "try_block_b64 cleaned_str =
     (case try_patterns_b64 patterns cleaned_str of
        Some (Inl e) \<Rightarrow> Inl e
      | Some (Inr p) \<Rightarrow> Inr (Some p)
      | None \<Rightarrow>
          if str_contains special_text cleaned_str then Inr (Some special_result_b64)
          else
            (case re_search simplified_pattern cleaned_str of
               Some m \<Rightarrow> (case to_decimal_b64 m of Inl e \<Rightarrow> Inl e | Inr p \<Rightarrow> Inr (Some p))
             | None \<Rightarrow> Inr None))"

text \<open>
  The argument is any Python object. \<open>PdNA\<close> is \<^verbatim>\<open>pandas.NA\<close>, the missing value of
  the library that reads the data: its truth test raises \<^verbatim>\<open>TypeError\<close>, and the test
  \<^verbatim>\<open>not coord_str\<close> of the first statement stands before the \<^verbatim>\<open>try\<close>.
\<close>

datatype pyobj = Val pyval | PdNA

fun py_not :: "pyobj \<Rightarrow> py_error + bool" where
  "py_not (Val v) = Inr (\<not> truthy v)"
| "py_not PdNA = Inl TypeError"

text \<open>
  \<^verbatim>\<open>print\<close> encodes its text for the standard output and raises
  \<^verbatim>\<open>UnicodeEncodeError\<close> when the encoding lacks one of the code points; it then
  writes nothing. \<open>enc\<close> holds for the code points that the encoding has. The fixed
  words of the two messages and the text of an exception are ASCII, which every
  encoding of a terminal has, so the argument decides. UTF-8 has every code point but
  the surrogates \<^verbatim>\<open>U+D800\<close> to \<^verbatim>\<open>U+DFFF\<close>.
\<close>

fun argument_of :: "message \<Rightarrow> ustr" where
  "argument_of (CouldNotParse raw) = raw"
| "argument_of (ErrorProcessing raw e) = raw"

definition py_print :: "(nat \<Rightarrow> bool) \<Rightarrow> message \<Rightarrow> message list \<Rightarrow> py_error + message list" where
  "py_print enc msg out =
     (if list_all enc (argument_of msg) then Inr (out @ [msg]) else Inl UnicodeEncodeError)"

definition utf8 :: "nat \<Rightarrow> bool" where
  "utf8 c \<longleftrightarrow> c < 55296 \<or> 57343 < c"

type_synonym float_pair = "b64 option \<times> b64 option"

text \<open>
  The body of the \<^verbatim>\<open>try\<close> block, with the \<^verbatim>\<open>print\<close> of its last statement but one:
  \<open>Inl\<close> is an exception on its way to the handler.
\<close>

definition try_body ::
  "(nat \<Rightarrow> bool) \<Rightarrow> ustr \<Rightarrow> message list \<Rightarrow> py_error + float_pair \<times> message list" where
  "try_body enc raw out =
     (case try_block_b64 (strip raw) of
        Inl e \<Rightarrow> Inl e
      | Inr (Some (latitude, longitude)) \<Rightarrow> Inr ((Some latitude, Some longitude), out)
      | Inr None \<Rightarrow>
          (case py_print enc (CouldNotParse raw) out of
             Inl e \<Rightarrow> Inl e
           | Inr out' \<Rightarrow> Inr ((None, None), out')))"

text \<open>
  The whole function: \<open>Inl\<close> is an exception that leaves it. The handler of
  \<^verbatim>\<open>except Exception\<close> prints the argument again, and an exception of that \<^verbatim>\<open>print\<close>
  has no handler.
\<close>

definition parse_coordinates_py ::
  "(nat \<Rightarrow> bool) \<Rightarrow> pyobj \<Rightarrow> message list \<Rightarrow> py_error + float_pair \<times> message list" where
  "parse_coordinates_py enc coord_str out =
     (case py_not coord_str of
        Inl e \<Rightarrow> Inl e
      | Inr True \<Rightarrow> Inr ((None, None), out)
      | Inr False \<Rightarrow>
          (case coord_str of
             Val (PyStr raw) \<Rightarrow>
               (case try_body enc raw out of
                  Inr result \<Rightarrow> Inr result
                | Inl e \<Rightarrow>
                    (case py_print enc (ErrorProcessing raw e) out of
                       Inl e' \<Rightarrow> Inl e'
                     | Inr out' \<Rightarrow> Inr ((None, None), out')))
           | _ \<Rightarrow> Inr ((None, None), out)))"

section \<open>Inputs and notions the properties speak about\<close>

text \<open>
  A text matches no grammar when none of the three patterns is found in it and the text
  of the special case does not occur in it.
\<close>

definition matches_no_grammar :: "ustr \<Rightarrow> bool" where
  "matches_no_grammar s \<longleftrightarrow>
     re_search pattern_comma s = None \<and> re_search pattern_space s = None \<and>
     \<not> str_contains special_text s \<and> re_search simplified_pattern s = None"

text \<open>A sequence of earlier calls, each writing to the standard output the next one sees.\<close>

fun run_calls :: "pyval list \<Rightarrow> message list \<Rightarrow> message list" where
  "run_calls [] out = out"
| "run_calls (v # vs) out = run_calls vs (snd (parse_coordinates v out))"

text \<open>
  The parser that the refinement property compares with: it tries the comma-separated
  and the space-separated pattern only and then gives up. It has neither the special
  case nor the pattern without spaces.
\<close>

definition try_block_reduced :: "ustr \<Rightarrow> py_error + (rat \<times> rat) option" where
  "try_block_reduced cleaned_str =
     (case try_patterns patterns cleaned_str of
        Some (Inl e) \<Rightarrow> Inl e
      | Some (Inr p) \<Rightarrow> Inr (Some p)
      | None \<Rightarrow> Inr None)"

definition parse_coordinates_reduced ::
  "pyval \<Rightarrow> message list \<Rightarrow> coordinate_pair \<times> message list" where
  "parse_coordinates_reduced coord_str out =
     (if \<not> truthy coord_str \<or> \<not> isinstance_str coord_str then ((None, None), out)
      else
        (case coord_str of
           PyStr raw \<Rightarrow>
             (case try_block_reduced (strip raw) of
                Inr (Some (latitude, longitude)) \<Rightarrow> ((Some latitude, Some longitude), out)
              | Inr None \<Rightarrow> ((None, None), out @ [CouldNotParse raw])
              | Inl e \<Rightarrow> ((None, None), out @ [ErrorProcessing raw e]))
         | _ \<Rightarrow> ((None, None), out)))"

text \<open>
  What a pattern matches, said without the matcher: \<open>derives r w g\<close> holds when the
  pattern \<open>r\<close> matches exactly the text \<open>w\<close> and captures the groups \<open>g\<close>.
\<close>

fun derives :: "regex \<Rightarrow> ustr \<Rightarrow> captures \<Rightarrow> bool" where
  "derives Eps w g \<longleftrightarrow> w = [] \<and> g = []"
| "derives (Chr k) w g \<longleftrightarrow> (\<exists>c. w = [c] \<and> in_class k c) \<and> g = []"
| "derives (Star k) w g \<longleftrightarrow> list_all (in_class k) w \<and> g = []"
| "derives (Plus k) w g \<longleftrightarrow> w \<noteq> [] \<and> list_all (in_class k) w \<and> g = []"
| "derives (Opt r) w g \<longleftrightarrow> derives r w g \<or> (w = [] \<and> g = [])"
| "derives (Seq a b) w g \<longleftrightarrow>
     (\<exists>w1 w2 g1 g2. w = w1 @ w2 \<and> g = g1 @ g2 \<and> derives a w1 g1 \<and> derives b w2 g2)"
| "derives (Grp n r) w g \<longleftrightarrow> (\<exists>g'. g = (n, w) # g' \<and> derives r w g')"

text \<open>\<open>starts P r\<close>: every text that \<open>r\<close> matches begins with a character in \<open>P\<close>.\<close>

definition starts :: "(nat \<Rightarrow> bool) \<Rightarrow> regex \<Rightarrow> bool" where
  "starts P r \<longleftrightarrow> (\<forall>w g. derives r w g \<longrightarrow> w \<noteq> [] \<and> P (hd w))"

text \<open>The character classes that occur in a pattern.\<close>

fun classes :: "regex \<Rightarrow> cclass set" where
  "classes Eps = {}"
| "classes (Chr k) = {k}"
| "classes (Star k) = {k}"
| "classes (Plus k) = {k}"
| "classes (Opt r) = classes r"
| "classes (Seq a b) = classes a \<union> classes b"
| "classes (Grp n r) = classes r"

text \<open>
  Two characters are alike when no class of the three patterns and no test of the
  conversion tells them apart: they have the same decimal value, both are white space
  or neither is, and both or neither belong to each set of literals.
\<close>

definition alike :: "nat \<Rightarrow> nat \<Rightarrow> bool" where
  "alike a b \<longleftrightarrow>
     decimal_value a = decimal_value b \<and> is_space a = is_space b \<and>
     (a \<in> {176, 186}) = (b \<in> {176, 186}) \<and>
     (a \<in> {39, 8242}) = (b \<in> {39, 8242}) \<and>
     (a \<in> {34, 8243}) = (b \<in> {34, 8243}) \<and>
     (a = 44) = (b = 44) \<and> (a = 46) = (b = 46) \<and>
     (a \<in> {78, 110}) = (b \<in> {78, 110}) \<and>
     (a \<in> {83, 115, 383}) = (b \<in> {83, 115, 383}) \<and>
     (a \<in> {69, 101}) = (b \<in> {69, 101}) \<and>
     (a \<in> {87, 119}) = (b \<in> {87, 119})"

abbreviation captures_rel :: "(nat \<Rightarrow> nat \<Rightarrow> bool) \<Rightarrow> captures \<Rightarrow> captures \<Rightarrow> bool" where
  "captures_rel R \<equiv> list_all2 (rel_prod (=) (list_all2 R))"

text \<open>
  Two characters are case variants of one hemisphere letter (or equal), and the
  typographic variant of a unit mark: the degree sign becomes the masculine ordinal
  indicator, the apostrophe the prime and the quotation mark the double prime.
\<close>

definition case_variant :: "nat \<Rightarrow> nat \<Rightarrow> bool" where
  "case_variant a b \<longleftrightarrow>
     a = b \<or> (\<exists>l \<in> {78, 83, 69, 87}. a \<in> set (ic_variants l) \<and> b \<in> set (ic_variants l))"




text \<open>A run of digits that is not empty, and a text that the pattern of the seconds matches.\<close>

definition digit_token :: "ustr \<Rightarrow> bool" where
  "digit_token D \<longleftrightarrow> D \<noteq> [] \<and> list_all is_decimal D"

definition number_token :: "ustr \<Rightarrow> bool" where
  "number_token S \<longleftrightarrow> derives number S []"






















text \<open>The groups that the comma-separated pattern captures in the text of the special case.\<close>

definition special_groups :: captures where
  "special_groups =
     [(1, [51, 51]), (2, [52, 54]), (3, [51, 54]), (4, [78]),
      (5, [49, 49, 56]), (6, [49, 55]), (7, [48]), (8, [87])]"

text \<open>\<^verbatim>\<open>40\u00b050'55"N 84\u00b004'51"W\<close> and \<^verbatim>\<open>40\u00b050'55"n 84\u00b004'51"w\<close>\<close>

definition space_separated_text :: ustr where
  "space_separated_text =
     [52, 48, 176, 53, 48, 39, 53, 53, 34, 78, 32, 56, 52, 176, 48, 52, 39, 53, 49, 34, 87]"

definition lower_case_text :: ustr where
  "lower_case_text =
     [52, 48, 176, 53, 48, 39, 53, 53, 34, 110, 32, 56, 52, 176, 48, 52, 39, 53, 49, 34, 119]"




text \<open>\<^verbatim>\<open>not a coordinate\<close>\<close>

definition garbage_text :: ustr where
  "garbage_text = [110, 111, 116, 32, 97, 32, 99, 111, 111, 114, 100, 105, 110, 97, 116, 101]"

section \<open>Evaluation on given text\<close>

lemmas class_defs = is_decimal_def decimal_value_def decimal_zeros_def is_space_def ic_variants_def

lemma dms_group_0:
  "dms_group 0 =
     [Grp 1 (Plus Digit), deg_mark, spaces0, Grp 2 (Plus Digit), min_mark, spaces0,
      Grp 3 number, sec_mark, spaces0, Grp 4 (Chr (OneOf [78, 83, 69, 87]))]"
  by (simp add: dms_group_def)

lemma dms_group_4:
  "dms_group 4 =
     [Grp 5 (Plus Digit), deg_mark, spaces0, Grp 6 (Plus Digit), min_mark, spaces0,
      Grp 7 number, sec_mark, spaces0, Grp 8 (Chr (OneOf [78, 83, 69, 87]))]"
  by (simp add: dms_group_def)

lemmas pattern_defs = patterns_def pattern_comma_def pattern_space_def simplified_pattern_def
  dms_group_0 dms_group_4 deg_mark_def min_mark_def sec_mark_def spaces0_def spaces1_def
  number_def

lemmas convert_defs = to_decimal_def float_group_def upper_group_def group_def py_float_def
  str_upper_def upper_cp_def

lemmas eval_defs = parse_coordinates_def try_block_def strip_def class_defs pattern_defs
  convert_defs

declare halve_exp.simps [simp del] double_exp.simps [simp del]

lemma floor_numeral_quotient:
  "\<lfloor>numeral a / numeral b :: rat\<rfloor> = numeral a div numeral b"
  using floor_divide_of_int_eq [of "numeral a" "numeral b", where ?'a = rat] by simp

lemmas round_defs = round64_def round64_pos_def exponent_def round_half_even_def Let_def
  halve_exp.simps double_exp.simps floor_numeral_quotient

lemmas eval_py_defs = parse_coordinates_py_def try_body_def try_block_b64_def strip_def
  class_defs pattern_defs to_decimal_b64_def float_group_b64_def py_float_b64_def
  upper_group_def group_def py_float_def str_upper_def upper_cp_def round_defs

section \<open>The early return and the fall through\<close>

lemma try_block_no_grammar: "matches_no_grammar s \<Longrightarrow> try_block s = Inr None"
  by (simp add: matches_no_grammar_def try_block_def patterns_def)

lemma garbage_no_grammar: "matches_no_grammar (strip garbage_text)"
  by (simp add: matches_no_grammar_def garbage_text_def special_text_def strip_def
      class_defs pattern_defs)

text \<open>
  Claim C4. The pair that \<^verbatim>\<open>parse_coordinates\<close> returns has both fields absent or
  both fields present, on every argument.
\<close>

theorem parse_coordinates_both_or_neither:
  "fst (parse_coordinates v out) = (None, None) \<or>
   (\<exists>lat lon. fst (parse_coordinates v out) = (Some lat, Some lon))"
  by (simp add: parse_coordinates_def split: pyval.split sum.split option.split prod.split)

theorem parse_coordinates_both_or_neither_witness:
  "fst (parse_coordinates (PyStr garbage_text) []) = (None, None) \<or>
   (\<exists>lat lon. fst (parse_coordinates (PyStr garbage_text) []) = (Some lat, Some lon))"
  using parse_coordinates_both_or_neither [of "PyStr garbage_text" "[]"] by simp

section \<open>No state between calls\<close>

lemma parse_coordinates_out:
  "parse_coordinates v out = (fst (parse_coordinates v []), out @ snd (parse_coordinates v []))"
  by (simp add: parse_coordinates_def split: pyval.split sum.split option.split prod.split)

text \<open>
  Claim C9. The pair that \<^verbatim>\<open>parse_coordinates\<close> returns depends on its argument
  only: after any sequence of earlier calls it is the pair of a first call, and what the
  call prints is what a first call prints, added to the output of the earlier calls.
\<close>

theorem parse_coordinates_stateless:
  "fst (parse_coordinates v (run_calls prior out)) = fst (parse_coordinates v []) \<and>
   snd (parse_coordinates v (run_calls prior out)) =
     run_calls prior out @ snd (parse_coordinates v [])"
  using parse_coordinates_out [of v "run_calls prior out"] by simp

theorem parse_coordinates_stateless_witness:
  "fst (parse_coordinates (PyStr space_separated_text)
          (run_calls [PyStr garbage_text, PyNone] [])) =
     fst (parse_coordinates (PyStr space_separated_text) []) \<and>
   snd (parse_coordinates (PyStr space_separated_text)
          (run_calls [PyStr garbage_text, PyNone] [])) =
     run_calls [PyStr garbage_text, PyNone] [] @
     snd (parse_coordinates (PyStr space_separated_text) [])"
  using parse_coordinates_stateless
    [of "PyStr space_separated_text" "[PyStr garbage_text, PyNone]" "[]"]
  by simp

section \<open>The scenarios of the specification\<close>

text \<open>
  Claim C1, on the code as it is. On the text of the special case the comma-separated
  pattern is found first, so the function returns the pair that the conversion computes,
  which is not the pair \<open>(33.77, -118.283333)\<close> of the special case.
\<close>

theorem special_text_takes_comma_pattern:
  "parse_coordinates (PyStr special_text) out =
     ((Some (10133 / 300), Some (- (7097 / 60))), out) \<and>
   (10133 / 300, - (7097 / 60)) \<noteq> special_result"
  by (simp add: eval_defs special_text_def special_result_def)

theorem special_text_takes_comma_pattern_witness:
  "parse_coordinates (PyStr special_text) [] =
     ((Some (10133 / 300), Some (- (7097 / 60))), []) \<and>
   (10133 / 300, - (7097 / 60)) \<noteq> special_result"
  using special_text_takes_comma_pattern [of "[]"] by simp

text \<open>
  Claim C8. On \<^verbatim>\<open>40\u00b050'55"N 84\u00b004'51"W\<close> the function returns the conversion of the
  two groups, the second negated for W: \<open>40.848611...\<close> and \<open>-84.080833...\<close>.
\<close>

theorem space_separated_scenario:
  "parse_coordinates (PyStr space_separated_text) out =
     ((Some (40 + 50 / 60 + 55 / 3600), Some (- (84 + 4 / 60 + 51 / 3600))), out) \<and>
   40848611 / 1000000 < (40 + 50 / 60 + 55 / 3600 :: rat) \<and>
   (40 + 50 / 60 + 55 / 3600 :: rat) < 40848612 / 1000000 \<and>
   - (84080834 / 1000000) < (- (84 + 4 / 60 + 51 / 3600) :: rat) \<and>
   (- (84 + 4 / 60 + 51 / 3600) :: rat) < - (84080833 / 1000000)"
  by (simp add: eval_defs space_separated_text_def)

theorem space_separated_scenario_witness:
  "parse_coordinates (PyStr space_separated_text) [] =
     ((Some (29411 / 720), Some (- (100897 / 1200))), [])"
  using space_separated_scenario [of "[]"] by simp

section \<open>The matcher and what a pattern matches\<close>

lemma set_many: "set (many P s) = {rest. \<exists>w. s = w @ rest \<and> list_all P w}"
proof (induction s)
  case Nil
  then show ?case by auto
next
  case (Cons c s)
  show ?case
  proof (cases "P c")
    case True
    have "{rest. \<exists>w. c # s = w @ rest \<and> list_all P w} =
          {rest. \<exists>w. s = w @ rest \<and> list_all P w} \<union> {c # s}"
      using True by (auto simp: Cons_eq_append_conv)
    with True Cons show ?thesis by simp
  next
    case False
    then have "{rest. \<exists>w. c # s = w @ rest \<and> list_all P w} = {c # s}"
      by (auto simp: Cons_eq_append_conv)
    with False show ?thesis by simp
  qed
qed

lemma in_set_rmatch_Seq:
  "(g, rest) \<in> set (rmatch (Seq a b) s) \<longleftrightarrow>
     (\<exists>g1 s1 g2. (g1, s1) \<in> set (rmatch a s) \<and> (g2, rest) \<in> set (rmatch b s1) \<and> g = g1 @ g2)"
  by fastforce

lemma set_rmatch:
  "set (rmatch r s) = {(g, rest). \<exists>w. s = w @ rest \<and> derives r w g}"
proof (induction r arbitrary: s)
  case Eps
  show ?case by auto
next
  case (Chr k)
  show ?case by (cases s) (auto simp: Cons_eq_append_conv)
next
  case (Star k)
  show ?case by (auto simp: set_many)
next
  case (Plus k)
  show ?case
  proof (cases s)
    case Nil
    then show ?thesis by auto
  next
    case (Cons c t)
    show ?thesis
    proof (cases "in_class k c")
      case True
      have A: "{rest. \<exists>w. c # t = w @ rest \<and> w \<noteq> [] \<and> list_all (in_class k) w} =
            {rest. \<exists>w. t = w @ rest \<and> list_all (in_class k) w}"
        using True by (auto simp: Cons_eq_append_conv)
      have B: "{(g, rest). \<exists>w. c # t = w @ rest \<and> derives (Plus k) w g} =
            Pair [] ` {rest. \<exists>w. c # t = w @ rest \<and> w \<noteq> [] \<and> list_all (in_class k) w}"
        by auto
      show ?thesis
        unfolding Cons B A using True by (simp add: set_many)
    next
      case False
      with Cons show ?thesis by (auto simp: Cons_eq_append_conv)
    qed
  qed
next
  case (Opt r)
  then show ?case by auto
next
  case (Seq a b)
  show ?case
  proof (rule set_eqI, clarify)
    fix g rest
    have "(g, rest) \<in> set (rmatch (Seq a b) s) \<longleftrightarrow>
          (\<exists>g1 s1 g2. (g1, s1) \<in> set (rmatch a s) \<and> (g2, rest) \<in> set (rmatch b s1) \<and> g = g1 @ g2)"
      by (rule in_set_rmatch_Seq)
    also have "\<dots> \<longleftrightarrow> (\<exists>g1 s1 g2 w1 w2. s = w1 @ s1 \<and> derives a w1 g1 \<and> s1 = w2 @ rest \<and>
          derives b w2 g2 \<and> g = g1 @ g2)"
      unfolding Seq by blast
    also have "\<dots> \<longleftrightarrow> (\<exists>w. s = w @ rest \<and> derives (Seq a b) w g)"
      by (simp only: derives.simps) (metis append.assoc same_append_eq)
    finally show "(g, rest) \<in> set (rmatch (Seq a b) s) \<longleftrightarrow>
          (g, rest) \<in> {(g, rest). \<exists>w. s = w @ rest \<and> derives (Seq a b) w g}"
      by simp
  qed
next
  case (Grp n r)
  show ?case
  proof (rule set_eqI, clarify)
    fix g rest
    have "(g, rest) \<in> set (rmatch (Grp n r) s) \<longleftrightarrow>
          (\<exists>g'. (g', rest) \<in> set (rmatch r s) \<and> g = (n, take (length s - length rest) s) # g')"
      by fastforce
    also have "\<dots> \<longleftrightarrow> (\<exists>g' w. s = w @ rest \<and> derives r w g' \<and> g = (n, w) # g')"
      unfolding Grp by auto
    also have "\<dots> \<longleftrightarrow> (\<exists>w. s = w @ rest \<and> derives (Grp n r) w g)"
      by auto
    finally show "(g, rest) \<in> set (rmatch (Grp n r) s) \<longleftrightarrow>
          (g, rest) \<in> {(g, rest). \<exists>w. s = w @ rest \<and> derives (Grp n r) w g}"
      by simp
  qed
qed

lemma rmatch_empty_iff: "rmatch r s = [] \<longleftrightarrow> (\<forall>w rest g. s = w @ rest \<longrightarrow> \<not> derives r w g)"
proof -
  have "rmatch r s = [] \<longleftrightarrow> set (rmatch r s) = {}" by simp
  also have "\<dots> \<longleftrightarrow> (\<forall>w rest g. s = w @ rest \<longrightarrow> \<not> derives r w g)"
    unfolding set_rmatch by auto
  finally show ?thesis .
qed

lemma re_search_None_iff:
  "re_search r s = None \<longleftrightarrow> (\<forall>pre suf. s = pre @ suf \<longrightarrow> rmatch r suf = [])"
proof (induction s)
  case Nil
  show ?case by (auto split: list.splits)
next
  case (Cons c s)
  have "(\<forall>pre suf. c # s = pre @ suf \<longrightarrow> rmatch r suf = []) \<longleftrightarrow>
        rmatch r (c # s) = [] \<and> (\<forall>pre suf. s = pre @ suf \<longrightarrow> rmatch r suf = [])"
    by (auto simp: Cons_eq_append_conv)
  with Cons show ?case by (auto split: list.splits)
qed

lemma derives_found: "derives r w g \<Longrightarrow> re_search r (pre @ w @ post) \<noteq> None"
  unfolding re_search_None_iff rmatch_empty_iff by blast

lemma found_derives:
  "re_search r s \<noteq> None \<Longrightarrow> \<exists>pre w post g. s = pre @ w @ post \<and> derives r w g"
  unfolding re_search_None_iff rmatch_empty_iff by blast

lemma starts_with_iff: "starts_with p s \<longleftrightarrow> (\<exists>post. s = p @ post)"
  by (induction p s rule: starts_with.induct) auto

lemma str_contains_iff: "str_contains p s \<longleftrightarrow> (\<exists>pre post. s = pre @ p @ post)"
proof (induction s)
  case Nil
  show ?case by (auto simp: starts_with_iff)
next
  case (Cons c s)
  show ?case
    by (auto simp: Cons starts_with_iff Cons_eq_append_conv)
qed


section \<open>The branches after the loop are never taken\<close>

lemma derives_Seq_mono:
  "derives (Seq a b) w g \<Longrightarrow> (\<And>w g. derives a w g \<Longrightarrow> derives a' w g) \<Longrightarrow>
   (\<And>w g. derives b w g \<Longrightarrow> derives b' w g) \<Longrightarrow> derives (Seq a' b') w g"
  unfolding derives.simps by blast

lemma derives_Seq_Star:
  "derives b w g \<Longrightarrow> (\<And>w g. derives b w g \<Longrightarrow> derives b' w g) \<Longrightarrow>
   derives (Seq (Star k) b') w g"
  unfolding derives.simps(6)
  by (rule exI [of _ "[]"], rule exI [of _ w], rule exI [of _ "[]"], rule exI [of _ g]) simp

lemma derives_Grp_mono:
  "derives (Grp n r) w g \<Longrightarrow> (\<And>w g. derives r w g \<Longrightarrow> derives r' w g) \<Longrightarrow>
   derives (Grp n r') w g"
  by auto

lemma derives_Chr_mono:
  "derives (Chr k) w g \<Longrightarrow> (\<And>c. in_class k c \<Longrightarrow> in_class k' c) \<Longrightarrow> derives (Chr k') w g"
  by auto

lemma derives_number: "derives (Plus Digit) w g \<Longrightarrow> derives number w g"
  unfolding number_def derives.simps(6)
  by (rule exI [of _ w], rule exI [of _ "[]"], rule exI [of _ "[]"], rule exI [of _ "[]"]) simp

lemma simplified_in_space: "derives simplified_pattern w g \<Longrightarrow> derives pattern_space w g"
  apply (simp add: pattern_defs del: derives.simps)
  apply (erule derives_Seq_mono, assumption)
  apply (erule derives_Seq_mono, assumption)
  apply (erule derives_Seq_Star)
  apply (erule derives_Seq_mono, assumption)
  apply (erule derives_Seq_mono, assumption)
  apply (erule derives_Seq_Star)
  apply (erule derives_Seq_mono)
   apply (erule derives_Grp_mono)
   apply (simp add: derives_number [unfolded number_def] del: derives.simps)
  apply (erule derives_Seq_mono, assumption)
  apply (erule derives_Seq_Star)
  apply (erule derives_Seq_mono)
   apply (erule derives_Grp_mono)
   apply (erule derives_Chr_mono)
   apply (auto simp: ic_variants_def)[1]
  apply (erule derives_Seq_mono, assumption)
  apply (erule derives_Seq_mono, assumption)
  apply (erule derives_Seq_mono, assumption)
  apply (erule derives_Seq_Star)
  apply (erule derives_Seq_mono, assumption)
  apply (erule derives_Seq_mono, assumption)
  apply (erule derives_Seq_Star)
  apply (erule derives_Seq_mono)
   apply (erule derives_Grp_mono)
   apply (simp add: derives_number [unfolded number_def] del: derives.simps)
  apply (erule derives_Seq_mono, assumption)
  apply (erule derives_Seq_Star)
  apply (erule derives_Seq_mono)
   apply (erule derives_Grp_mono)
   apply (erule derives_Chr_mono)
   apply (auto simp: ic_variants_def)[1]
  apply assumption
  done

lemma rmatch_comma_special: "rmatch pattern_comma special_text = [(special_groups, [])]"
  by (simp add: special_text_def special_groups_def pattern_defs class_defs)

lemma derives_comma_special: "derives pattern_comma special_text special_groups"
proof -
  have "(special_groups, []) \<in> set (rmatch pattern_comma special_text)"
    by (simp add: rmatch_comma_special)
  then show ?thesis unfolding set_rmatch by simp
qed

lemma special_text_found:
  "str_contains special_text s \<Longrightarrow> re_search pattern_comma s \<noteq> None"
  unfolding str_contains_iff using derives_found [OF derives_comma_special] by blast

lemma simplified_found:
  assumes "re_search simplified_pattern s \<noteq> None"
  shows "re_search pattern_space s \<noteq> None"
proof -
  from found_derives [OF assms] obtain pre w post g
    where s: "s = pre @ w @ post" and d: "derives simplified_pattern w g" by blast
  from derives_found [OF simplified_in_space [OF d]] show ?thesis unfolding s .
qed

lemma try_block_eq_reduced: "try_block s = try_block_reduced s"
proof (cases "try_patterns patterns s")
  case (Some r)
  then show ?thesis by (simp add: try_block_def try_block_reduced_def)
next
  case None
  then have c: "re_search pattern_comma s = None" and p: "re_search pattern_space s = None"
    by (auto simp: patterns_def split: option.splits)
  from c special_text_found have "\<not> str_contains special_text s" by blast
  moreover from p simplified_found have "re_search simplified_pattern s = None" by blast
  ultimately show ?thesis using None by (simp add: try_block_def try_block_reduced_def)
qed

text \<open>
  Claim C5. \<^verbatim>\<open>parse_coordinates\<close> returns what the parser with the two patterns of the
  loop returns, on every argument: a text in which the text of the special case occurs
  is found by the comma-separated pattern, and wherever the pattern without spaces
  matches, the space-separated pattern matches the same text with the same groups.
\<close>

theorem parse_coordinates_reduced_eq:
  "parse_coordinates v out = parse_coordinates_reduced v out \<and>
   (str_contains special_text s \<longrightarrow> re_search pattern_comma s \<noteq> None) \<and>
   set (rmatch simplified_pattern s) \<subseteq> set (rmatch pattern_space s)"
proof (intro conjI impI)
  show "parse_coordinates v out = parse_coordinates_reduced v out"
    by (cases v)
       (simp_all add: parse_coordinates_def parse_coordinates_reduced_def try_block_eq_reduced)
  show "re_search pattern_comma s \<noteq> None" if "str_contains special_text s"
    using that by (rule special_text_found)
  show "set (rmatch simplified_pattern s) \<subseteq> set (rmatch pattern_space s)"
    unfolding set_rmatch using simplified_in_space by blast
qed

lemma rmatch_simplified_space_separated:
  "rmatch simplified_pattern space_separated_text =
     [([(1, [52, 48]), (2, [53, 48]), (3, [53, 53]), (4, [78]),
        (5, [56, 52]), (6, [48, 52]), (7, [53, 49]), (8, [87])], [])]"
  by (simp add: space_separated_text_def pattern_defs class_defs)

theorem parse_coordinates_reduced_eq_witness:
  "parse_coordinates (PyStr special_text) [] = parse_coordinates_reduced (PyStr special_text) [] \<and>
   str_contains special_text special_text \<and> re_search pattern_comma special_text \<noteq> None \<and>
   rmatch simplified_pattern space_separated_text \<noteq> [] \<and>
   set (rmatch simplified_pattern space_separated_text) \<subseteq>
     set (rmatch pattern_space space_separated_text)"
  using parse_coordinates_reduced_eq [of "PyStr special_text" "[]" special_text]
    parse_coordinates_reduced_eq [of "PyStr special_text" "[]" space_separated_text]
  by (simp add: rmatch_simplified_space_separated str_contains_iff) (metis append_Nil append_Nil2)

section \<open>Characters that the parser cannot tell apart\<close>

lemma many_rel:
  assumes "\<And>a b. R a b \<Longrightarrow> P a = P b" and "list_all2 R s t"
  shows "list_all2 (list_all2 R) (many P s) (many P t)"
  using assms(2)
proof (induction rule: list_all2_induct)
  case Nil
  show ?case by simp
next
  case (Cons a s b t)
  from Cons.hyps(1) assms(1) have P: "P a = P b" by blast
  have "list_all2 R (a # s) (b # t)" using Cons.hyps by simp
  with Cons.IH P show ?case by (auto intro!: list_all2_appendI)
qed

lemma concat_map_rel:
  assumes "list_all2 Q xs ys" and "\<And>x y. Q x y \<Longrightarrow> list_all2 T (F x) (F' y)"
  shows "list_all2 T (concat (map F xs)) (concat (map F' ys))"
  using assms(1)
proof (induction rule: list_all2_induct)
  case Nil
  show ?case by simp
next
  case (Cons x xs y ys)
  with assms(2) show ?case by (auto intro!: list_all2_appendI)
qed

lemma map_rel:
  assumes "list_all2 Q xs ys" and "\<And>x y. Q x y \<Longrightarrow> T (F x) (F' y)"
  shows "list_all2 T (map F xs) (map F' ys)"
  using assms(1)
proof (induction rule: list_all2_induct)
  case Nil
  show ?case by simp
next
  case (Cons x xs y ys)
  with assms(2) show ?case by simp
qed

lemma rmatch_rel:
  assumes "\<And>k a b. k \<in> classes r \<Longrightarrow> R a b \<Longrightarrow> in_class k a = in_class k b"
    and "list_all2 R s t"
  shows "list_all2 (rel_prod (captures_rel R) (list_all2 R)) (rmatch r s) (rmatch r t)"
  using assms
proof (induction r arbitrary: s t)
  case Eps
  then show ?case by simp
next
  case (Chr k)
  from Chr.prems(2) show ?case
  proof (cases rule: list.rel_cases)
    case Nil
    then show ?thesis by simp
  next
    case (Cons a s' b t')
    with Chr.prems(1) [of k a b] show ?thesis by simp
  qed
next
  case (Star k)
  have "list_all2 (list_all2 R) (many (in_class k) s) (many (in_class k) t)"
    by (rule many_rel [OF _ Star.prems(2)]) (simp add: Star.prems(1))
  then show ?case by (simp add: list.rel_map)
next
  case (Plus k)
  from Plus.prems(2) show ?case
  proof (cases rule: list.rel_cases)
    case Nil
    then show ?thesis by simp
  next
    case (Cons a s' b t')
    have "list_all2 (list_all2 R) (many (in_class k) s') (many (in_class k) t')"
      by (rule many_rel [OF _ Cons(4)]) (simp add: Plus.prems(1))
    with Cons Plus.prems(1) [of k a b] show ?thesis by (simp add: list.rel_map)
  qed
next
  case (Opt r)
  have "list_all2 (rel_prod (captures_rel R) (list_all2 R)) (rmatch r s) (rmatch r t)"
    by (rule Opt.IH) (simp_all add: Opt.prems)
  with Opt.prems(2) show ?case by (auto intro!: list_all2_appendI)
next
  case (Seq a b)
  have A: "list_all2 (rel_prod (captures_rel R) (list_all2 R)) (rmatch a s) (rmatch a t)"
    by (rule Seq.IH(1)) (simp_all add: Seq.prems)
  have B: "list_all2 (rel_prod (captures_rel R) (list_all2 R)) (rmatch b s1) (rmatch b t1)"
    if "list_all2 R s1 t1" for s1 t1
    by (rule Seq.IH(2)) (simp_all add: Seq.prems that)
  show ?case
    unfolding rmatch.simps
  proof (rule concat_map_rel [OF A])
    fix x y
    assume xy: "rel_prod (captures_rel R) (list_all2 R) x y"
    obtain g1 s1 where x: "x = (g1, s1)" by (cases x)
    obtain h1 t1 where y: "y = (h1, t1)" by (cases y)
    from xy x y have g: "captures_rel R g1 h1" and st: "list_all2 R s1 t1" by simp_all
    have "list_all2 (rel_prod (captures_rel R) (list_all2 R))
            (map (\<lambda>(g2, s2). (g1 @ g2, s2)) (rmatch b s1))
            (map (\<lambda>(g2, s2). (h1 @ g2, s2)) (rmatch b t1))"
      by (rule map_rel [OF B [OF st]]) (auto intro!: list_all2_appendI g)
    then show "list_all2 (rel_prod (captures_rel R) (list_all2 R))
            (case x of (g1, s1) \<Rightarrow> map (\<lambda>(g2, s2). (g1 @ g2, s2)) (rmatch b s1))
            (case y of (g1, s1) \<Rightarrow> map (\<lambda>(g2, s2). (g1 @ g2, s2)) (rmatch b s1))"
      by (simp add: x y)
  qed
next
  case (Grp n r)
  have A: "list_all2 (rel_prod (captures_rel R) (list_all2 R)) (rmatch r s) (rmatch r t)"
    by (rule Grp.IH) (simp_all add: Grp.prems)
  from Grp.prems(2) have len: "length s = length t" by (rule list_all2_lengthD)
  show ?case
    unfolding rmatch.simps
  proof (rule map_rel [OF A])
    fix x y
    assume xy: "rel_prod (captures_rel R) (list_all2 R) x y"
    obtain g1 s1 where x: "x = (g1, s1)" by (cases x)
    obtain h1 t1 where y: "y = (h1, t1)" by (cases y)
    from xy x y have g: "captures_rel R g1 h1" and st: "list_all2 R s1 t1" by simp_all
    from st have "length s1 = length t1" by (rule list_all2_lengthD)
    with len have "list_all2 R (take (length s - length s1) s) (take (length t - length t1) t)"
      using Grp.prems(2) by (simp add: list_all2_takeI)
    with g st show "rel_prod (captures_rel R) (list_all2 R)
        (case x of (g, s') \<Rightarrow> ((n, take (length s - length s') s) # g, s'))
        (case y of (g, s') \<Rightarrow> ((n, take (length t - length s') t) # g, s'))"
      by (simp add: x y)
  qed
qed

lemma re_search_rel:
  assumes "\<And>k a b. k \<in> classes r \<Longrightarrow> R a b \<Longrightarrow> in_class k a = in_class k b"
    and "list_all2 R s t"
  shows "rel_option (captures_rel R) (re_search r s) (re_search r t)"
  using assms(2)
proof (induction rule: list_all2_induct)
  case Nil
  have "list_all2 (rel_prod (captures_rel R) (list_all2 R)) (rmatch r []) (rmatch r [])"
    by (rule rmatch_rel) (simp_all add: assms(1))
  then show ?case
    by (cases "rmatch r []") auto
next
  case (Cons a s b t)
  have "list_all2 (rel_prod (captures_rel R) (list_all2 R)) (rmatch r (a # s)) (rmatch r (b # t))"
    by (rule rmatch_rel) (simp_all add: assms(1) Cons.hyps)
  then show ?case
    using Cons.IH
    by (cases "rmatch r (a # s)"; cases "rmatch r (b # t)") auto
qed

lemma in_class_simps:
  "in_class (OneOf [176, 186]) c \<longleftrightarrow> c \<in> {176, 186}"
  "in_class (OneOf [39, 8242]) c \<longleftrightarrow> c \<in> {39, 8242}"
  "in_class (OneOf [34, 8243]) c \<longleftrightarrow> c \<in> {34, 8243}"
  "in_class (OneOf [44]) c \<longleftrightarrow> c = 44"
  "in_class (OneOf [46]) c \<longleftrightarrow> c = 46"
  "in_class (OneOf [78, 83, 69, 87]) c \<longleftrightarrow>
     c \<in> {78, 110} \<or> c \<in> {83, 115, 383} \<or> c \<in> {69, 101} \<or> c \<in> {87, 119}"
  "in_class (OneOf [78, 83]) c \<longleftrightarrow> c \<in> {78, 110} \<or> c \<in> {83, 115, 383}"
  "in_class (OneOf [69, 87]) c \<longleftrightarrow> c \<in> {69, 101} \<or> c \<in> {87, 119}"
  by (simp_all add: ic_variants_def disj_ac)

lemma alikeD:
  assumes "alike a b"
  shows "decimal_value a = decimal_value b" "is_space a = is_space b"
    "(a \<in> {176, 186}) = (b \<in> {176, 186})"
    "(a \<in> {39, 8242}) = (b \<in> {39, 8242})"
    "(a \<in> {34, 8243}) = (b \<in> {34, 8243})"
    "(a = 44) = (b = 44)" "(a = 46) = (b = 46)"
    "(a \<in> {78, 110}) = (b \<in> {78, 110})"
    "(a \<in> {83, 115, 383}) = (b \<in> {83, 115, 383})"
    "(a \<in> {69, 101}) = (b \<in> {69, 101})"
    "(a \<in> {87, 119}) = (b \<in> {87, 119})"
proof -
  note c = assms [unfolded alike_def]
  note c1 = c [THEN conjunct2]
  note c2 = c1 [THEN conjunct2]
  note c3 = c2 [THEN conjunct2]
  note c4 = c3 [THEN conjunct2]
  note c5 = c4 [THEN conjunct2]
  note c6 = c5 [THEN conjunct2]
  note c7 = c6 [THEN conjunct2]
  note c8 = c7 [THEN conjunct2]
  note c9 = c8 [THEN conjunct2]
  show "decimal_value a = decimal_value b" by (rule c [THEN conjunct1])
  show "is_space a = is_space b" by (rule c1 [THEN conjunct1])
  show "(a \<in> {176, 186}) = (b \<in> {176, 186})" by (rule c2 [THEN conjunct1])
  show "(a \<in> {39, 8242}) = (b \<in> {39, 8242})" by (rule c3 [THEN conjunct1])
  show "(a \<in> {34, 8243}) = (b \<in> {34, 8243})" by (rule c4 [THEN conjunct1])
  show "(a = 44) = (b = 44)" by (rule c5 [THEN conjunct1])
  show "(a = 46) = (b = 46)" by (rule c6 [THEN conjunct1])
  show "(a \<in> {78, 110}) = (b \<in> {78, 110})" by (rule c7 [THEN conjunct1])
  show "(a \<in> {83, 115, 383}) = (b \<in> {83, 115, 383})" by (rule c8 [THEN conjunct1])
  show "(a \<in> {69, 101}) = (b \<in> {69, 101})" by (rule c9 [THEN conjunct1])
  show "(a \<in> {87, 119}) = (b \<in> {87, 119})" by (rule c9 [THEN conjunct2])
qed

lemma alike_in_class:
  assumes "alike a b"
  shows "in_class Digit a = in_class Digit b" "in_class Space a = in_class Space b"
    "in_class (OneOf [176, 186]) a = in_class (OneOf [176, 186]) b"
    "in_class (OneOf [39, 8242]) a = in_class (OneOf [39, 8242]) b"
    "in_class (OneOf [34, 8243]) a = in_class (OneOf [34, 8243]) b"
    "in_class (OneOf [44]) a = in_class (OneOf [44]) b"
    "in_class (OneOf [46]) a = in_class (OneOf [46]) b"
    "in_class (OneOf [78, 83, 69, 87]) a = in_class (OneOf [78, 83, 69, 87]) b"
    "in_class (OneOf [78, 83]) a = in_class (OneOf [78, 83]) b"
    "in_class (OneOf [69, 87]) a = in_class (OneOf [69, 87]) b"
  by (simp_all only: in_class_simps in_class.simps(1,2) is_decimal_def alikeD [OF assms])

lemma alike_classes:
  assumes "k \<in> classes pattern_comma \<union> classes pattern_space \<union> classes simplified_pattern"
    and "alike a b"
  shows "in_class k a = in_class k b"
proof -
  from assms(1) have "k \<in> {Digit, Space, OneOf [176, 186], OneOf [39, 8242], OneOf [34, 8243],
      OneOf [44], OneOf [46], OneOf [78, 83, 69, 87], OneOf [78, 83], OneOf [69, 87]}"
    by (auto simp: pattern_defs)
  then consider "k = Digit" | "k = Space" | "k = OneOf [176, 186]" | "k = OneOf [39, 8242]"
    | "k = OneOf [34, 8243]" | "k = OneOf [44]" | "k = OneOf [46]"
    | "k = OneOf [78, 83, 69, 87]" | "k = OneOf [78, 83]" | "k = OneOf [69, 87]"
    by blast
  then show ?thesis
    by cases (simp_all only: alike_in_class [OF assms(2)])
qed

lemma alike_refl: "alike a a"
  by (simp add: alike_def)

lemma upper_cp_S: "upper_cp a = 83 \<longleftrightarrow> a \<in> {83, 115, 383}"
  by (auto simp: upper_cp_def)

lemma upper_cp_W: "upper_cp a = 87 \<longleftrightarrow> a \<in> {87, 119}"
  by (auto simp: upper_cp_def)

lemma str_upper_single: "str_upper u = [x] \<longleftrightarrow> (\<exists>a. u = [a] \<and> upper_cp a = x)"
  by (cases u) (auto simp: str_upper_def)

lemma single_alike:
  assumes "list_all2 alike u v" and "\<And>a b. alike a b \<Longrightarrow> P a = P b"
  shows "(\<exists>a. u = [a] \<and> P a) = (\<exists>b. v = [b] \<and> P b)"
  using assms(1)
proof (cases rule: list.rel_cases)
  case Nil
  then show ?thesis by simp
next
  case (Cons a u' b v')
  from Cons(4) have "length u' = length v'" by (rule list_all2_lengthD)
  then have e: "(u' = []) = (v' = [])" by (metis length_0_conv)
  from assms(2) [OF Cons(3)] e show ?thesis by (simp add: Cons(1,2))
qed

lemma str_upper_alike:
  assumes "list_all2 alike u v"
  shows "(str_upper u = [83]) = (str_upper v = [83])" "(str_upper u = [87]) = (str_upper v = [87])"
  unfolding str_upper_single upper_cp_S upper_cp_W
  by (rule single_alike [OF assms], erule alikeD)+

lemma takeWhile_rel:
  assumes "\<And>a b. R a b \<Longrightarrow> P a = P b" and "list_all2 R s t"
  shows "list_all2 R (takeWhile P s) (takeWhile P t)"
  using assms(2)
proof (induction rule: list_all2_induct)
  case Nil
  show ?case by simp
next
  case (Cons a s b t)
  with assms(1) [of a b] show ?case by simp
qed

lemma dropWhile_rel:
  assumes "\<And>a b. R a b \<Longrightarrow> P a = P b" and "list_all2 R s t"
  shows "list_all2 R (dropWhile P s) (dropWhile P t)"
  using assms(2)
proof (induction rule: list_all2_induct)
  case Nil
  show ?case by simp
next
  case (Cons a s b t)
  with assms(1) [of a b] show ?case by simp
qed

lemma strip_alike: "list_all2 alike s t \<Longrightarrow> list_all2 alike (strip s) (strip t)"
  unfolding strip_def
  by (intro list_all2_rev [THEN iffD2] dropWhile_rel list_all2_rev1 [THEN iffD2])
     (simp_all add: alike_def)

lemma foldl_digits_alike:
  "list_all2 alike u v \<Longrightarrow>
   foldl (\<lambda>a d. 10 * a + the (decimal_value d)) n u =
   foldl (\<lambda>a d. 10 * a + the (decimal_value d)) n v"
  by (induction arbitrary: n rule: list_all2_induct) (simp_all add: alike_def)

lemma list_all_decimal_alike:
  "list_all2 alike u v \<Longrightarrow> list_all is_decimal u = list_all is_decimal v"
  by (induction rule: list_all2_induct) (simp_all add: alike_def is_decimal_def)

lemma digits_value_alike:
  assumes "list_all2 alike u v"
  shows "digits_value u = digits_value v"
  using assms
proof (cases rule: list.rel_cases)
  case Nil
  then show ?thesis by simp
next
  case (Cons a u' b v')
  then have uv: "list_all2 alike (a # u') (b # v')" by simp
  from Cons(3) have ab: "decimal_value a = decimal_value b" by (simp add: alike_def)
  show ?thesis
    unfolding Cons(1,2) digits_value.simps list_all_decimal_alike [OF uv]
    using foldl_digits_alike [OF Cons(4)] by (simp add: ab)
qed

lemma py_float_alike:
  assumes "list_all2 alike u v"
  shows "py_float u = py_float v"
proof -
  have P: "\<And>a b. alike a b \<Longrightarrow> (a \<noteq> 46) = (b \<noteq> 46)" by (simp add: alike_def)
  have w: "list_all2 alike (takeWhile (\<lambda>c. c \<noteq> 46) u) (takeWhile (\<lambda>c. c \<noteq> 46) v)"
    by (rule takeWhile_rel [OF P assms])
  have r: "list_all2 alike (dropWhile (\<lambda>c. c \<noteq> 46) u) (dropWhile (\<lambda>c. c \<noteq> 46) v)"
    by (rule dropWhile_rel [OF P assms])
  from r show ?thesis
  proof (cases rule: list.rel_cases)
    case Nil
    show ?thesis
      unfolding py_float_def Let_def Nil by (simp add: digits_value_alike [OF w])
  next
    case (Cons a u' b v')
    from Cons(4) have "length u' = length v'" by (rule list_all2_lengthD)
    then show ?thesis
      unfolding py_float_def Let_def Cons(1,2)
      by (simp add: digits_value_alike [OF w] digits_value_alike [OF Cons(4)]
          split: option.split)
  qed
qed

lemma map_of_alike:
  "captures_rel alike m m' \<Longrightarrow> rel_option (list_all2 alike) (map_of m k) (map_of m' k)"
  by (induction rule: list_all2_induct) auto

lemma float_group_alike: "captures_rel alike m m' \<Longrightarrow> float_group m k = float_group m' k"
  using map_of_alike [of m m' k]
  by (cases "map_of m k"; cases "map_of m' k")
     (simp_all add: float_group_def group_def py_float_alike)

lemma upper_group_alike:
  assumes "captures_rel alike m m'"
  shows "rel_sum (=) (\<lambda>u v. (u = [83]) = (v = [83]) \<and> (u = [87]) = (v = [87]))
           (upper_group m k) (upper_group m' k)"
  using map_of_alike [OF assms, of k]
  by (cases "map_of m k"; cases "map_of m' k")
     (simp_all add: upper_group_def group_def str_upper_alike)

lemma to_decimal_alike:
  assumes "captures_rel alike m m'"
  shows "to_decimal m = to_decimal m'"
proof -
  note f = float_group_alike [OF assms]
  from upper_group_alike [OF assms, of 4]
  consider (err4) e where "upper_group m 4 = Inl e" "upper_group m' 4 = Inl e"
    | (ok4) u v where "upper_group m 4 = Inr u" "upper_group m' 4 = Inr v"
        "(u = [83]) = (v = [83])"
    by (auto elim: rel_sum.cases)
  then show ?thesis
  proof cases
    case err4
    then show ?thesis
      by (simp add: to_decimal_def f split: sum.split)
  next
    case ok4
    from upper_group_alike [OF assms, of 8]
    consider (err8) e where "upper_group m 8 = Inl e" "upper_group m' 8 = Inl e"
      | (ok8) u' v' where "upper_group m 8 = Inr u'" "upper_group m' 8 = Inr v'"
          "(u' = [87]) = (v' = [87])"
      by (auto elim: rel_sum.cases)
    then show ?thesis
    proof cases
      case err8
      with ok4 show ?thesis
        by (simp add: to_decimal_def f split: sum.split)
    next
      case ok8
      with ok4 show ?thesis
        by (simp add: to_decimal_def f Let_def split: sum.split)
    qed
  qed
qed

lemma not_decimal_literals:
  "decimal_value 176 = None" "decimal_value 186 = None" "decimal_value 39 = None"
  "decimal_value 8242 = None" "decimal_value 34 = None" "decimal_value 8243 = None"
  "decimal_value 78 = None" "decimal_value 110 = None" "decimal_value 83 = None"
  "decimal_value 115 = None" "decimal_value 383 = None" "decimal_value 69 = None"
  "decimal_value 101 = None" "decimal_value 87 = None" "decimal_value 119 = None"
  "decimal_value 44 = None" "decimal_value 46 = None" "decimal_value 32 = None"
  by (simp_all add: decimal_value_def decimal_zeros_def)

lemma not_space_literals:
  "\<not> is_space 176" "\<not> is_space 186" "\<not> is_space 39" "\<not> is_space 8242" "\<not> is_space 34"
  "\<not> is_space 8243" "\<not> is_space 78" "\<not> is_space 110" "\<not> is_space 83" "\<not> is_space 115"
  "\<not> is_space 383" "\<not> is_space 69" "\<not> is_space 101" "\<not> is_space 87" "\<not> is_space 119"
  "\<not> is_space 44" "\<not> is_space 46"
  by (simp_all add: is_space_def)

lemma alike_same_letter:
  assumes "l \<in> {78, 83, 69, 87}" and "a \<in> set (ic_variants l)" and "b \<in> set (ic_variants l)"
  shows "alike a b"
proof -
  from assms(1) consider "l = 78" | "l = 83" | "l = 69" | "l = 87" by blast
  then show ?thesis
  proof cases
    case 1
    with assms have "a = 78 \<or> a = 110" "b = 78 \<or> b = 110" by (simp_all add: ic_variants_def)
    then show ?thesis
      by (elim disjE) (simp_all add: alike_def not_decimal_literals not_space_literals)
  next
    case 2
    with assms have "a = 83 \<or> a = 115 \<or> a = 383" "b = 83 \<or> b = 115 \<or> b = 383"
      by (simp_all add: ic_variants_def)
    then show ?thesis
      by (elim disjE) (simp_all add: alike_def not_decimal_literals not_space_literals)
  next
    case 3
    with assms have "a = 69 \<or> a = 101" "b = 69 \<or> b = 101" by (simp_all add: ic_variants_def)
    then show ?thesis
      by (elim disjE) (simp_all add: alike_def not_decimal_literals not_space_literals)
  next
    case 4
    with assms have "a = 87 \<or> a = 119" "b = 87 \<or> b = 119" by (simp_all add: ic_variants_def)
    then show ?thesis
      by (elim disjE) (simp_all add: alike_def not_decimal_literals not_space_literals)
  qed
qed

lemma case_variant_alike: "case_variant a b \<Longrightarrow> alike a b"
  unfolding case_variant_def using alike_refl alike_same_letter by blast


lemma try_patterns_alike:
  assumes "list_all2 alike s t"
  shows "try_patterns patterns s = try_patterns patterns t"
proof -
  have c: "rel_option (captures_rel alike) (re_search pattern_comma s) (re_search pattern_comma t)"
    by (rule re_search_rel [OF _ assms]) (rule alike_classes, simp_all)
  have p: "rel_option (captures_rel alike) (re_search pattern_space s) (re_search pattern_space t)"
    by (rule re_search_rel [OF _ assms]) (rule alike_classes, simp_all)
  from c p show ?thesis
    by (auto simp: patterns_def to_decimal_alike elim!: option.rel_cases)
qed

lemma parse_coordinates_alike:
  assumes "list_all2 alike s t"
  shows "fst (parse_coordinates (PyStr s) out) = fst (parse_coordinates (PyStr t) out')"
proof -
  from assms have "length s = length t" by (rule list_all2_lengthD)
  then have e: "(s = []) = (t = [])" by (metis length_0_conv)
  have "try_block (strip s) = try_block (strip t)"
    by (simp add: try_block_eq_reduced try_block_reduced_def
        try_patterns_alike [OF strip_alike [OF assms]])
  with e show ?thesis
    by (simp add: parse_coordinates_def split: sum.split option.split prod.split)
qed

text \<open>
  Claim C6. Replacing hemisphere letters of a text by their case variants does not
  change the pair that \<^verbatim>\<open>parse_coordinates\<close> returns.
\<close>

theorem hemisphere_case_insensitive:
  "list_all2 case_variant s t \<Longrightarrow>
   fst (parse_coordinates (PyStr s) out) = fst (parse_coordinates (PyStr t) out)"
  by (rule parse_coordinates_alike) (erule list_all2_mono, rule case_variant_alike)

theorem hemisphere_case_insensitive_witness:
  "list_all2 case_variant space_separated_text lower_case_text \<and>
   fst (parse_coordinates (PyStr space_separated_text) []) =
     fst (parse_coordinates (PyStr lower_case_text) []) \<and>
   fst (parse_coordinates (PyStr lower_case_text) []) =
     (Some (29411 / 720), Some (- (100897 / 1200)))"
proof -
  have a: "list_all2 case_variant space_separated_text lower_case_text"
    by (simp add: space_separated_text_def lower_case_text_def case_variant_def ic_variants_def)
  have b: "fst (parse_coordinates (PyStr lower_case_text) []) =
     (Some (29411 / 720), Some (- (100897 / 1200)))"
    by (simp add: eval_defs lower_case_text_def)
  from a b hemisphere_case_insensitive [OF a, of "[]"] show ?thesis by simp
qed



section \<open>The patterns on the text of a pair\<close>

lemma list_all_hd: "list_all P w \<Longrightarrow> w \<noteq> [] \<Longrightarrow> P (hd w)"
  by (cases w) simp_all

lemma starts_Chr: "(\<And>c. in_class k c \<Longrightarrow> P c) \<Longrightarrow> starts P (Seq (Chr k) Y)"
  by (auto simp: starts_def)

lemma starts_Grp_Chr: "(\<And>c. in_class k c \<Longrightarrow> P c) \<Longrightarrow> starts P (Seq (Grp n (Chr k)) Y)"
  by (auto simp: starts_def)

lemma starts_Plus: "(\<And>c. in_class k c \<Longrightarrow> P c) \<Longrightarrow> starts P (Seq (Plus k) Y)"
  by (auto simp: starts_def dest: list_all_hd)

lemma starts_Grp_Plus: "(\<And>c. in_class k c \<Longrightarrow> P c) \<Longrightarrow> starts P (Seq (Grp n (Plus k)) Y)"
  by (auto simp: starts_def dest: list_all_hd)

lemma starts_Grp_Plus_Seq:
  "(\<And>c. in_class k c \<Longrightarrow> P c) \<Longrightarrow> starts P (Seq (Grp n (Seq (Plus k) Z)) Y)"
  by (auto simp: starts_def dest: list_all_hd)

lemma starts_Star:
  assumes "\<And>c. in_class k c \<Longrightarrow> P c" and "starts P Y"
  shows "starts P (Seq (Star k) Y)"
  unfolding starts_def
proof (intro allI impI)
  fix w g
  assume "derives (Seq (Star k) Y) w g"
  then obtain w1 w2 g2 where w: "w = w1 @ w2" and k: "list_all (in_class k) w1"
    and y: "derives Y w2 g2" by auto
  from y assms(2) have w2: "w2 \<noteq> []" "P (hd w2)" by (auto simp: starts_def)
  show "w \<noteq> [] \<and> P (hd w)"
  proof (cases w1)
    case Nil
    with w w2 show ?thesis by simp
  next
    case (Cons c w1')
    with k assms(1) w show ?thesis by simp
  qed
qed

lemma starts_Opt_Chr:
  assumes "\<And>c. in_class k c \<Longrightarrow> P c" and "starts P Y"
  shows "starts P (Seq (Opt (Chr k)) Y)"
  unfolding starts_def
proof (intro allI impI)
  fix w g
  assume "derives (Seq (Opt (Chr k)) Y) w g"
  then obtain w1 w2 g2 where w: "w = w1 @ w2" and k: "(\<exists>c. w1 = [c] \<and> in_class k c) \<or> w1 = []"
    and y: "derives Y w2 g2" by auto
  from y assms(2) have w2: "w2 \<noteq> []" "P (hd w2)" by (auto simp: starts_def)
  from k show "w \<noteq> [] \<and> P (hd w)"
  proof
    assume "\<exists>c. w1 = [c] \<and> in_class k c"
    with assms(1) w show ?thesis by auto
  next
    assume "w1 = []"
    with w w2 show ?thesis by simp
  qed
qed

lemma run_split:
  assumes "list_all P w1" and "w2 \<noteq> []" and "\<not> P (hd w2)"
  shows "takeWhile P (w1 @ w2 @ rest) = w1" "dropWhile P (w1 @ w2 @ rest) = w2 @ rest"
proof -
  from assms(2) obtain c w2' where w2: "w2 = c # w2'" by (cases w2) auto
  with assms(3) have c: "\<not> P c" by simp
  from assms(1) have a: "\<forall>x\<in>set w1. P x" by (simp add: list_all_iff)
  show "takeWhile P (w1 @ w2 @ rest) = w1" using a c by (simp add: w2 takeWhile_append2)
  show "dropWhile P (w1 @ w2 @ rest) = w2 @ rest" using a c by (simp add: w2 dropWhile_append2)
qed

lemma set_rmatch_run:
  assumes run: "\<And>u h. derives R u h \<Longrightarrow> list_all P u"
    and st: "starts (\<lambda>c. \<not> P c) X"
  shows "set (rmatch (Seq R X) s) =
    {(g1 @ g2, r) | g1 g2 r. derives R (takeWhile P s) g1 \<and> (g2, r) \<in> set (rmatch X (dropWhile P s))}"
proof (rule set_eqI, clarify)
  fix g r
  show "(g, r) \<in> set (rmatch (Seq R X) s) \<longleftrightarrow>
    (g, r) \<in> {(g1 @ g2, r) | g1 g2 r. derives R (takeWhile P s) g1 \<and>
                 (g2, r) \<in> set (rmatch X (dropWhile P s))}"
  proof
    assume "(g, r) \<in> set (rmatch (Seq R X) s)"
    then obtain w where s: "s = w @ r" and d: "derives (Seq R X) w g"
      unfolding set_rmatch by (auto simp del: derives.simps)
    from d obtain w1 w2 g1 g2 where w: "w = w1 @ w2" and g: "g = g1 @ g2"
      and d1: "derives R w1 g1" and d2: "derives X w2 g2"
      unfolding derives.simps(6) by blast
    from d2 st have w2: "w2 \<noteq> []" "\<not> P (hd w2)" by (auto simp: starts_def)
    have s': "s = w1 @ w2 @ r" by (simp add: s w)
    note sp = run_split [OF run [OF d1] w2, of r, folded s']
    from d1 have "derives R (takeWhile P s) g1" by (simp add: sp)
    moreover from d2 have "(g2, r) \<in> set (rmatch X (dropWhile P s))"
      unfolding set_rmatch sp by auto
    ultimately show "(g, r) \<in> {(g1 @ g2, r) | g1 g2 r. derives R (takeWhile P s) g1 \<and>
                 (g2, r) \<in> set (rmatch X (dropWhile P s))}"
      using g by blast
  next
    assume "(g, r) \<in> {(g1 @ g2, r) | g1 g2 r. derives R (takeWhile P s) g1 \<and>
                 (g2, r) \<in> set (rmatch X (dropWhile P s))}"
    then obtain g1 g2 where g: "g = g1 @ g2" and d1: "derives R (takeWhile P s) g1"
      and m: "(g2, r) \<in> set (rmatch X (dropWhile P s))" by blast
    from m obtain w2 where dw: "dropWhile P s = w2 @ r" and d2: "derives X w2 g2"
      unfolding set_rmatch by auto
    have "s = takeWhile P s @ dropWhile P s" by simp
    then have "s = (takeWhile P s @ w2) @ r" by (simp add: dw)
    moreover have "derives (Seq R X) (takeWhile P s @ w2) g"
      unfolding derives.simps(6) using d1 d2 g by blast
    ultimately show "(g, r) \<in> set (rmatch (Seq R X) s)"
      unfolding set_rmatch by blast
  qed
qed

lemma in_class_fun: "in_class Digit = is_decimal" "in_class Space = is_space"
  by (rule ext, simp)+

lemma set_rmatch_digits:
  assumes "starts (\<lambda>c. \<not> is_decimal c) X"
  shows "set (rmatch (Seq (Grp n (Plus Digit)) X) s) =
    (if takeWhile is_decimal s = [] then {}
     else (\<lambda>(g, r). ((n, takeWhile is_decimal s) # g, r)) ` set (rmatch X (dropWhile is_decimal s)))"
proof -
  have run: "\<And>u h. derives (Grp n (Plus Digit)) u h \<Longrightarrow> list_all is_decimal u"
    by (auto simp: in_class_fun)
  have d: "derives (Grp n (Plus Digit)) (takeWhile is_decimal s) g1 \<longleftrightarrow>
      takeWhile is_decimal s \<noteq> [] \<and> g1 = [(n, takeWhile is_decimal s)]" for g1
    by (auto simp: list_all_iff in_class_fun dest: set_takeWhileD)
  have e: "set (rmatch (Seq (Grp n (Plus Digit)) X) s) =
     {(g1 @ g2, r) | g1 g2 r. derives (Grp n (Plus Digit)) (takeWhile is_decimal s) g1 \<and>
        (g2, r) \<in> set (rmatch X (dropWhile is_decimal s))}"
    by (rule set_rmatch_run [OF run assms])
  show ?thesis
    unfolding e d
    apply (cases "takeWhile is_decimal s = []")
     apply simp
    apply force
    done
qed

lemma derives_number_captures: "derives number u g \<Longrightarrow> g = []"
  by (auto simp: number_def)

lemma derives_number_run: "derives number u g \<Longrightarrow> list_all (\<lambda>c. is_decimal c \<or> c = 46) u"
  by (auto simp: number_def ic_variants_def list_all_iff)

lemma set_rmatch_number:
  assumes "starts (\<lambda>c. \<not> (is_decimal c \<or> c = 46)) X"
  shows "set (rmatch (Seq (Grp n number) X) s) =
    (if derives number (takeWhile (\<lambda>c. is_decimal c \<or> c = 46) s) []
     then (\<lambda>(g, r). ((n, takeWhile (\<lambda>c. is_decimal c \<or> c = 46) s) # g, r)) `
            set (rmatch X (dropWhile (\<lambda>c. is_decimal c \<or> c = 46) s))
     else {})"
proof -
  let ?P = "\<lambda>c. is_decimal c \<or> c = 46"
  have run: "\<And>u h. derives (Grp n number) u h \<Longrightarrow> list_all ?P u"
    by (auto dest: derives_number_run)
  have d: "derives (Grp n number) (takeWhile ?P s) g1 \<longleftrightarrow>
      derives number (takeWhile ?P s) [] \<and> g1 = [(n, takeWhile ?P s)]" for g1
    by (auto dest: derives_number_captures)
  have e: "set (rmatch (Seq (Grp n number) X) s) =
     {(g1 @ g2, r) | g1 g2 r. derives (Grp n number) (takeWhile ?P s) g1 \<and>
        (g2, r) \<in> set (rmatch X (dropWhile ?P s))}"
    by (rule set_rmatch_run [OF run assms])
  show ?thesis
    unfolding e d
    apply (cases "derives number (takeWhile ?P s) []")
     apply force
    apply simp
    done
qed

lemma set_rmatch_spaces0:
  assumes "starts (\<lambda>c. \<not> is_space c) X"
  shows "set (rmatch (Seq (Star Space) X) s) = set (rmatch X (dropWhile is_space s))"
proof -
  have run: "\<And>u h. derives (Star Space) u h \<Longrightarrow> list_all is_space u"
    by (auto simp: in_class_fun)
  have d: "derives (Star Space) (takeWhile is_space s) g1 \<longleftrightarrow> g1 = []" for g1
    by (auto simp: list_all_iff in_class_fun dest: set_takeWhileD)
  have e: "set (rmatch (Seq (Star Space) X) s) =
     {(g1 @ g2, r) | g1 g2 r. derives (Star Space) (takeWhile is_space s) g1 \<and>
        (g2, r) \<in> set (rmatch X (dropWhile is_space s))}"
    by (rule set_rmatch_run [OF run assms])
  show ?thesis
    unfolding e d by force
qed

lemma set_rmatch_spaces1:
  assumes "starts (\<lambda>c. \<not> is_space c) X"
  shows "set (rmatch (Seq (Plus Space) X) s) =
    (if takeWhile is_space s = [] then {} else set (rmatch X (dropWhile is_space s)))"
proof -
  have run: "\<And>u h. derives (Plus Space) u h \<Longrightarrow> list_all is_space u"
    by (auto simp: in_class_fun)
  have d: "derives (Plus Space) (takeWhile is_space s) g1 \<longleftrightarrow>
      takeWhile is_space s \<noteq> [] \<and> g1 = []" for g1
    by (auto simp: list_all_iff in_class_fun dest: set_takeWhileD)
  have e: "set (rmatch (Seq (Plus Space) X) s) =
     {(g1 @ g2, r) | g1 g2 r. derives (Plus Space) (takeWhile is_space s) g1 \<and>
        (g2, r) \<in> set (rmatch X (dropWhile is_space s))}"
    by (rule set_rmatch_run [OF run assms])
  show ?thesis
    unfolding e d
    apply (cases "takeWhile is_space s = []")
     apply simp
    apply force
    done
qed

lemma set_rmatch_opt_chr:
  assumes "starts (\<lambda>c. \<not> in_class k c) X"
  shows "set (rmatch (Seq (Opt (Chr k)) X) s) =
    (if length (takeWhile (in_class k) s) \<le> 1
     then set (rmatch X (dropWhile (in_class k) s)) else {})"
proof -
  have run: "\<And>u h. derives (Opt (Chr k)) u h \<Longrightarrow> list_all (in_class k) u" by auto
  have d: "derives (Opt (Chr k)) (takeWhile (in_class k) s) g1 \<longleftrightarrow>
      length (takeWhile (in_class k) s) \<le> 1 \<and> g1 = []" for g1
  proof (cases "takeWhile (in_class k) s")
    case Nil
    then show ?thesis by auto
  next
    case (Cons c u)
    then have "c \<in> set (takeWhile (in_class k) s)" by simp
    then have "in_class k c" by (rule set_takeWhileD [THEN conjunct2])
    with Cons show ?thesis by auto
  qed
  have e: "set (rmatch (Seq (Opt (Chr k)) X) s) =
     {(g1 @ g2, r) | g1 g2 r. derives (Opt (Chr k)) (takeWhile (in_class k) s) g1 \<and>
        (g2, r) \<in> set (rmatch X (dropWhile (in_class k) s))}"
    by (rule set_rmatch_run [OF run assms])
  show ?thesis
    unfolding e d
    apply (cases "length (takeWhile (in_class k) s) \<le> 1")
     apply force
    apply simp
    done
qed

lemma set_rmatch_chr:
  "set (rmatch (Seq (Chr k) X) (c # t)) = (if in_class k c then set (rmatch X t) else {})"
  by force

lemma set_rmatch_grp_chr:
  "set (rmatch (Seq (Grp n (Chr k)) X) (c # t)) =
     (if in_class k c then (\<lambda>(g, r). ((n, [c]) # g, r)) ` set (rmatch X t) else {})"
  by force

lemma space_not_decimal: "is_space c \<Longrightarrow> decimal_value c = None"
  unfolding is_space_def decimal_value_def decimal_zeros_def
  by (elim disjE) simp_all

lemma decimal_not_space: "is_decimal c \<Longrightarrow> \<not> is_space c"
  using space_not_decimal [of c] by (auto simp: is_decimal_def)

lemma not_is_decimal_literals:
  "\<not> is_decimal 176" "\<not> is_decimal 186" "\<not> is_decimal 39" "\<not> is_decimal 8242"
  "\<not> is_decimal 34" "\<not> is_decimal 8243" "\<not> is_decimal 44" "\<not> is_decimal 46"
  "\<not> is_decimal 32"
  by (simp_all add: is_decimal_def not_decimal_literals)

lemma hemi_cases:
  "in_class (OneOf [78, 83, 69, 87]) h \<longleftrightarrow>
     h = 78 \<or> h = 110 \<or> h = 83 \<or> h = 115 \<or> h = 383 \<or> h = 69 \<or> h = 101 \<or> h = 87 \<or> h = 119"
  by (simp add: ic_variants_def)

lemma hemi_not_space: "in_class (OneOf [78, 83, 69, 87]) h \<Longrightarrow> \<not> is_space h"
  unfolding hemi_cases by (elim disjE) (simp_all add: not_space_literals)

lemma hemi_not_decimal: "in_class (OneOf [78, 83, 69, 87]) h \<Longrightarrow> \<not> is_decimal h"
  unfolding hemi_cases by (elim disjE) (simp_all add: is_decimal_def not_decimal_literals)

lemma hemi_not_others:
  "in_class (OneOf [78, 83, 69, 87]) h \<Longrightarrow> h \<noteq> 46 \<and> h \<noteq> 34 \<and> h \<noteq> 8243"
  unfolding hemi_cases by (elim disjE) simp_all

lemma starts_mark_not_decimal:
  "starts (\<lambda>c. \<not> is_decimal c) (Seq (Chr (OneOf [176, 186])) Y)"
  "starts (\<lambda>c. \<not> is_decimal c) (Seq (Chr (OneOf [39, 8242])) Y)"
  by (rule starts_Chr, auto simp: ic_variants_def not_is_decimal_literals)+

lemma starts_token_not_space:
  "starts (\<lambda>c. \<not> is_space c) (Seq (Grp n (Plus Digit)) Y)"
  "starts (\<lambda>c. \<not> is_space c) (Seq (Grp n number) Y)"
  "starts (\<lambda>c. \<not> is_space c) (Seq (Grp n (Chr (OneOf [78, 83, 69, 87]))) Y)"
proof -
  show "starts (\<lambda>c. \<not> is_space c) (Seq (Grp n (Plus Digit)) Y)"
    by (rule starts_Grp_Plus) (simp add: decimal_not_space)
  show "starts (\<lambda>c. \<not> is_space c) (Seq (Grp n number) Y)"
    unfolding number_def by (rule starts_Grp_Plus_Seq) (simp add: decimal_not_space)
  show "starts (\<lambda>c. \<not> is_space c) (Seq (Grp n (Chr (OneOf [78, 83, 69, 87]))) Y)"
    by (rule starts_Grp_Chr) (rule hemi_not_space)
qed

lemma starts_after_number:
  "starts (\<lambda>c. \<not> (is_decimal c \<or> c = 46))
     (Seq (Opt (Chr (OneOf [34, 8243])))
        (Seq (Star Space) (Seq (Grp n (Chr (OneOf [78, 83, 69, 87]))) Y)))"
proof (intro starts_Opt_Chr starts_Star starts_Grp_Chr)
  fix c
  assume "in_class (OneOf [34, 8243]) c"
  then show "\<not> (is_decimal c \<or> c = 46)"
    by (auto simp: ic_variants_def not_is_decimal_literals)
next
  fix c
  assume "in_class Space c"
  then have "is_space c" by simp
  then show "\<not> (is_decimal c \<or> c = 46)"
    using decimal_not_space [of c] by (auto simp: is_space_def)
next
  fix c
  assume "in_class (OneOf [78, 83, 69, 87]) c"
  then show "\<not> (is_decimal c \<or> c = 46)"
    using hemi_not_decimal hemi_not_others by blast
qed

lemma starts_after_sec:
  "starts (\<lambda>c. \<not> in_class (OneOf [34, 8243]) c)
     (Seq (Star Space) (Seq (Grp n (Chr (OneOf [78, 83, 69, 87]))) Y))"
proof (intro starts_Star starts_Grp_Chr)
  fix c
  assume "in_class Space c"
  then have "is_space c" by simp
  then show "\<not> in_class (OneOf [34, 8243]) c"
    by (auto simp: ic_variants_def is_space_def)
next
  fix c
  assume "in_class (OneOf [78, 83, 69, 87]) c"
  from hemi_not_others [OF this] show "\<not> in_class (OneOf [34, 8243]) c"
    by (simp add: ic_variants_def)
qed


lemma takeWhile_number_token:
  assumes "number_token S" and "\<not> is_decimal c" and "c \<noteq> 46"
  shows "takeWhile (\<lambda>c. is_decimal c \<or> c = 46) (S @ c # r) = S"
    "dropWhile (\<lambda>c. is_decimal c \<or> c = 46) (S @ c # r) = c # r"
proof -
  from assms(1) have "list_all (\<lambda>c. is_decimal c \<or> c = 46) S"
    unfolding number_token_def by (rule derives_number_run)
  then have a: "\<forall>x\<in>set S. is_decimal x \<or> x = 46" by (simp add: list_all_iff)
  show "takeWhile (\<lambda>c. is_decimal c \<or> c = 46) (S @ c # r) = S"
    using a assms(2,3) by (simp add: takeWhile_append2)
  show "dropWhile (\<lambda>c. is_decimal c \<or> c = 46) (S @ c # r) = c # r"
    using a assms(2,3) by (simp add: dropWhile_append2)
qed

lemma dropWhile_token:
  assumes "T \<noteq> []" and "\<not> P (hd T)"
  shows "dropWhile P (T @ r) = T @ r"
  using assms by (cases T) simp_all

lemma digit_token_hd: "digit_token D \<Longrightarrow> D \<noteq> [] \<and> \<not> is_space (hd D)"
  by (auto simp: digit_token_def dest: list_all_hd decimal_not_space)

lemma number_token_hd: "number_token S \<Longrightarrow> S \<noteq> [] \<and> \<not> is_space (hd S)"
  by (auto simp: number_token_def number_def in_class_fun dest!: list_all_hd decimal_not_space)

lemma dropWhile_space_token:
  "digit_token D \<Longrightarrow> dropWhile is_space (D @ r) = D @ r"
  "number_token S \<Longrightarrow> dropWhile is_space (S @ r) = S @ r"
  by (simp_all add: dropWhile_token digit_token_hd number_token_hd)


lemma set_rmatch_eps: "set (rmatch Eps s) = {([], s)}"
  by simp

lemmas set_rmatch_simps = set_rmatch_eps
  set_rmatch_digits [OF starts_mark_not_decimal(1)] set_rmatch_digits [OF starts_mark_not_decimal(2)]
  set_rmatch_number [OF starts_after_number]
  set_rmatch_opt_chr [OF starts_after_sec]
  set_rmatch_spaces0 [OF starts_token_not_space(1)] set_rmatch_spaces0 [OF starts_token_not_space(2)]
  set_rmatch_spaces0 [OF starts_token_not_space(3)]
  set_rmatch_spaces1 [OF starts_token_not_space(1)]
  set_rmatch_chr set_rmatch_grp_chr






















lemma seq_append: "seq (rs @ ts) = foldr Seq rs (seq ts)"
  by (induction rs) simp_all















section \<open>Rounding to binary64\<close>






















section \<open>The idealised function and the function as the interpreter runs it\<close>

text \<open>
  Where \<^verbatim>\<open>print\<close> can encode the argument, the function as the interpreter runs it
  returns; it prints what the idealised function prints, and each field of its pair is
  absent or present as in the pair of the idealised function.
\<close>

lemma float_group_b64_eq:
  "float_group_b64 m k = (case float_group m k of Inl e \<Rightarrow> Inl e | Inr q \<Rightarrow> Inr (round64 q))"
  by (simp add: float_group_b64_def float_group_def py_float_b64_def split: sum.split)

lemma to_decimal_b64_shape: "rel_sum (=) (\<lambda>p q. True) (to_decimal_b64 m) (to_decimal m)"
  by (simp add: to_decimal_b64_def to_decimal_def float_group_b64_eq Let_def split: sum.split)

lemma try_patterns_b64_shape:
  "rel_option (rel_sum (=) (\<lambda>p q. True)) (try_patterns_b64 ps s) (try_patterns ps s)"
  by (induction ps) (simp_all add: to_decimal_b64_shape split: option.split)

lemma try_block_b64_shape:
  "rel_sum (=) (rel_option (\<lambda>p q. True)) (try_block_b64 s) (try_block s)"
proof -
  note a = try_patterns_b64_shape [of patterns s]
  note b = to_decimal_b64_shape
  show ?thesis
  proof (cases "try_patterns patterns s")
    case None
    with a have n: "try_patterns_b64 patterns s = None" by (cases "try_patterns_b64 patterns s") simp_all
    show ?thesis
    proof (cases "re_search simplified_pattern s")
      case None
      with n \<open>try_patterns patterns s = None\<close> show ?thesis
        by (simp add: try_block_b64_def try_block_def)
    next
      case (Some m)
      with n \<open>try_patterns patterns s = None\<close> b [of m] show ?thesis
        by (cases "to_decimal_b64 m"; cases "to_decimal m")
           (simp_all add: try_block_b64_def try_block_def)
    qed
  next
    case (Some r)
    with a obtain r' where r': "try_patterns_b64 patterns s = Some r'"
      and rr: "rel_sum (=) (\<lambda>p q. True) r' r"
      by (cases "try_patterns_b64 patterns s") simp_all
    from rr Some r' show ?thesis
      by (cases r'; cases r) (simp_all add: try_block_b64_def try_block_def)
  qed
qed

lemma parse_coordinates_py_shape:
  assumes "\<And>raw. v = PyStr raw \<Longrightarrow> list_all enc raw"
  shows "\<exists>p. parse_coordinates_py enc (Val v) out = Inr (p, snd (parse_coordinates v out)) \<and>
    rel_prod (rel_option (\<lambda>x y. True)) (rel_option (\<lambda>x y. True)) p
      (fst (parse_coordinates v out))"
proof (cases "\<exists>raw. v = PyStr raw \<and> raw \<noteq> []")
  case False
  then have "\<not> truthy v \<or> \<not> isinstance_str v" by (cases v) auto
  then show ?thesis
    by (cases v) (auto simp: parse_coordinates_py_def parse_coordinates_def split: bool.split)
next
  case True
  then obtain raw where v: "v = PyStr raw" and ne: "raw \<noteq> []" by blast
  from assms [OF v] have e: "list_all enc raw" .
  from try_block_b64_shape [of "strip raw"] show ?thesis
    by (cases "try_block_b64 (strip raw)"; cases "try_block (strip raw)")
       (auto simp: v ne e parse_coordinates_py_def parse_coordinates_def try_body_def
          py_print_def option_rel_Some1 option_rel_Some2 split: option.splits)
qed

text \<open>
  Whenever the function as the interpreter runs it returns, its pair has both fields or
  neither, and the pair and what is printed do not depend on the output of earlier
  calls. The text of the special case and the space-separated scenario evaluate to the
  binary64 numbers \<open>33.776666666666664\<close>, \<open>-118.28333333333333\<close> and
  \<open>40.84861111111111\<close>, \<open>-84.08083333333333\<close>, and the pair of the special case is the
  binary64 pair \<open>(33.77, -118.283333)\<close>.
\<close>

lemma parse_coordinates_py_both_or_neither:
  assumes "parse_coordinates_py enc v out = Inr (p, out')"
  shows "p = (None, None) \<or> (\<exists>lat lon. p = (Some lat, Some lon))"
  using assms
  by (auto simp: parse_coordinates_py_def try_body_def
      split: sum.splits bool.splits pyobj.splits pyval.splits option.splits)

lemma py_print_out:
  "py_print enc msg out = map_sum id (\<lambda>written. out @ written) (py_print enc msg [])"
  by (simp add: py_print_def)

lemma parse_coordinates_py_out:
  "parse_coordinates_py enc v out =
     map_sum id (\<lambda>(p, written). (p, out @ written)) (parse_coordinates_py enc v [])"
  by (simp add: parse_coordinates_py_def try_body_def py_print_def
      split: sum.split bool.split pyobj.split pyval.split option.split)

lemma special_text_py:
  "parse_coordinates_py enc (Val (PyStr special_text)) out =
     Inr ((Some (Finite (4753643231681795 / 140737488355328)),
           Some (Finite (- (4161724811907345 / 35184372088832)))), out)"
  "special_result_b64 =
     (Finite (4752704981759427 / 140737488355328),
      Finite (- (4161724800179221 / 35184372088832)))"
  by (simp_all add: eval_py_defs special_text_def special_result_b64_def)

lemma space_separated_py:
  "parse_coordinates_py enc (Val (PyStr space_separated_text)) out =
     Inr ((Some (Finite (2874465465290661 / 70368744177664)),
           Some (Finite (- (5916662651078137 / 70368744177664)))), out)"
  by (simp add: eval_py_defs space_separated_text_def)

section \<open>Exceptions that leave the function\<close>

lemma try_block_b64_no_grammar: "matches_no_grammar s \<Longrightarrow> try_block_b64 s = Inr None"
  by (simp add: matches_no_grammar_def try_block_b64_def patterns_def)

lemma surrogate_no_grammar: "matches_no_grammar (strip [55296])"
  by (simp add: matches_no_grammar_def special_text_def strip_def class_defs pattern_defs)

text \<open>
  Claim C3, as the code contradicts it. The function does not return on every argument.
  \<^verbatim>\<open>print\<close> raises \<^verbatim>\<open>UnicodeEncodeError\<close> when the standard output cannot encode the
  argument; the handler of the \<^verbatim>\<open>try\<close> block prints the argument again, and the
  exception of that \<^verbatim>\<open>print\<close> leaves the function. With UTF-8 this happens on the
  string that holds the lone surrogate \<^verbatim>\<open>U+D800\<close>, and so on every non-empty string that
  matches no grammar and holds a code point that the standard output lacks. The truth
  test of \<^verbatim>\<open>pandas.NA\<close> raises \<^verbatim>\<open>TypeError\<close> before the \<^verbatim>\<open>try\<close> block is entered.
  Elsewhere the function does what the claim says: \<^verbatim>\<open>None\<close>, the empty string and
  every other value that is not a string give the absent pair with nothing printed, and
  a non-empty string that matches no grammar and that the standard output can encode
  gives the absent pair and the message \<^verbatim>\<open>Could not parse coordinates\<close>.
\<close>

theorem print_failure_leaves_function:
  "parse_coordinates_py utf8 (Val (PyStr [55296])) out = Inl UnicodeEncodeError \<and>
   parse_coordinates_py enc PdNA out = Inl TypeError \<and>
   (raw \<noteq> [] \<and> matches_no_grammar (strip raw) \<and> \<not> list_all enc raw \<longrightarrow>
      parse_coordinates_py enc (Val (PyStr raw)) out = Inl UnicodeEncodeError) \<and>
   (raw \<noteq> [] \<and> matches_no_grammar (strip raw) \<and> list_all enc raw \<longrightarrow>
      parse_coordinates_py enc (Val (PyStr raw)) out =
        Inr ((None, None), out @ [CouldNotParse raw])) \<and>
   (\<not> truthy v \<or> \<not> isinstance_str v \<longrightarrow>
      parse_coordinates_py enc (Val v) out = Inr ((None, None), out))"
proof (intro conjI impI)
  show "parse_coordinates_py utf8 (Val (PyStr [55296])) out = Inl UnicodeEncodeError"
    by (simp add: parse_coordinates_py_def try_body_def py_print_def utf8_def
        try_block_b64_no_grammar [OF surrogate_no_grammar])
  show "parse_coordinates_py enc PdNA out = Inl TypeError"
    by (simp add: parse_coordinates_py_def)
next
  assume "raw \<noteq> [] \<and> matches_no_grammar (strip raw) \<and> \<not> list_all enc raw"
  then show "parse_coordinates_py enc (Val (PyStr raw)) out = Inl UnicodeEncodeError"
    by (simp add: parse_coordinates_py_def try_body_def py_print_def try_block_b64_no_grammar)
next
  assume "raw \<noteq> [] \<and> matches_no_grammar (strip raw) \<and> list_all enc raw"
  then show "parse_coordinates_py enc (Val (PyStr raw)) out =
      Inr ((None, None), out @ [CouldNotParse raw])"
    by (simp add: parse_coordinates_py_def try_body_def py_print_def try_block_b64_no_grammar)
next
  assume "\<not> truthy v \<or> \<not> isinstance_str v"
  then show "parse_coordinates_py enc (Val v) out = Inr ((None, None), out)"
    by (cases v) (auto simp: parse_coordinates_py_def split: bool.split)
qed

theorem print_failure_leaves_function_witness:
  "parse_coordinates_py utf8 (Val (PyStr [55296])) [] = Inl UnicodeEncodeError \<and>
   parse_coordinates_py utf8 PdNA [] = Inl TypeError \<and>
   garbage_text \<noteq> [] \<and> matches_no_grammar (strip garbage_text) \<and> list_all utf8 garbage_text \<and>
   parse_coordinates_py utf8 (Val (PyStr garbage_text)) [] =
     Inr ((None, None), [CouldNotParse garbage_text]) \<and>
   [55296] \<noteq> [] \<and> matches_no_grammar (strip [55296]) \<and> \<not> list_all utf8 [55296] \<and>
   \<not> isinstance_str (PyFloat 5) \<and>
   parse_coordinates_py utf8 (Val (PyFloat 5)) [] = Inr ((None, None), []) \<and>
   parse_coordinates_py utf8 (Val PyNone) [] = Inr ((None, None), []) \<and>
   parse_coordinates_py utf8 (Val (PyStr [])) [] = Inr ((None, None), [])"
  using print_failure_leaves_function [of "[]" utf8 garbage_text "PyFloat 5"]
    print_failure_leaves_function [of "[]" utf8 "[55296]" PyNone]
    print_failure_leaves_function [of "[]" utf8 "[55296]" "PyStr []"]
    garbage_no_grammar surrogate_no_grammar
  by (simp add: garbage_text_def utf8_def)

section \<open>Well-formed pairs in binary64 arithmetic\<close>














end
